theory Spec2Isabelle
  imports Main
begin

text \<open>
  A model of \<open>SegmentService\<close> (\<open>backend/src/services/segmentService.ts\<close>): the
  creation cascade and the renaming of the three-level segment hierarchy, and the
  per-segment store of custom activity types and activity channels. The service's
  methods are embedded as state-passing functions over a world that holds the
  stored rows, the transactions and the log of the calls made to the
  collaborators.
\<close>

section \<open>Values of the host language\<close>

text \<open>
  A plain JavaScript object is the list of its own properties in enumeration order
  (\<open>Object.keys\<close> is \<open>map fst\<close>): the keys that are array indices come first, in
  ascending numeric order, and the other keys follow in the order in which they
  were added. \<open>obj_get\<close> looks a key up among the own properties.

  Reading \<open>o[k]\<close> also sees what every plain object inherits from
  \<open>Object.prototype\<close>: \<open>obj_read\<close> answers \<open>Own v\<close> for an own property, \<open>Inherited\<close>
  for a key that is not an own property and names a property of \<open>Object.prototype\<close>
  (\<open>protoKeys\<close>; the value read is a built-in function or object, and it is
  truthy), and \<open>Missing\<close> (\<open>undefined\<close>) otherwise.
\<close>

type_synonym 'v obj = "(string \<times> 'v) list"

definition protoKeys :: "string list" where
  "protoKeys =
     [''constructor'', ''__proto__'', ''hasOwnProperty'', ''isPrototypeOf'',
      ''propertyIsEnumerable'', ''toLocaleString'', ''toString'', ''valueOf'',
      ''__defineGetter__'', ''__defineSetter__'', ''__lookupGetter__'', ''__lookupSetter__'']"

datatype 'v property = Own 'v | Inherited | Missing

definition obj_keys :: "'v obj \<Rightarrow> string list" where
  "obj_keys ob = map fst ob"

definition obj_get :: "'v obj \<Rightarrow> string \<Rightarrow> 'v option" where
  "obj_get ob k = map_of ob k"

definition obj_read :: "'v obj \<Rightarrow> string \<Rightarrow> 'v property" where
  "obj_read ob k =
     (case obj_get ob k of
        Some v \<Rightarrow> Own v
      | None \<Rightarrow> if k \<in> set protoKeys then Inherited else Missing)"

text \<open>
  An array index is the decimal numeral, without leading zeros, of a number below
  \<open>2^32 - 1\<close>.
\<close>

definition isDigit :: "char \<Rightarrow> bool" where
  "isDigit c = (48 \<le> (of_char c :: int) \<and> (of_char c :: int) \<le> 57)"

definition decimal :: "string \<Rightarrow> int" where
  "decimal k = foldl (\<lambda>n c. 10 * n + ((of_char c :: int) - 48)) 0 k"

definition isArrayIndex :: "string \<Rightarrow> bool" where
  "isArrayIndex k =
     (k \<noteq> [] \<and> list_all isDigit k \<and> (length k = 1 \<or> hd k \<noteq> CHR ''0'')
      \<and> decimal k < 4294967295)"

text \<open>
  \<open>obj_insert\<close> adds a property under a key the object does not have yet, at its
  place in the enumeration order; \<open>obj_replace\<close> gives an existing property a new
  value and leaves it where it is. \<open>obj_define\<close> is the definition of an own
  property, as an object literal and a spread \<open>{...a, ...b}\<close> (\<open>obj_spread a b\<close>)
  perform it. \<open>obj_set\<close> is the assignment \<open>o[k] = v\<close>: it is a definition, except
  that assigning to \<open>__proto__\<close> on an object without an own property of that name
  runs the setter inherited from \<open>Object.prototype\<close>, which replaces the object's
  prototype and adds no own property. \<open>obj_delete\<close> is \<open>delete o[k]\<close>.
\<close>

fun obj_insert :: "'v obj \<Rightarrow> string \<Rightarrow> 'v \<Rightarrow> 'v obj" where
  "obj_insert [] k v = [(k, v)]"
| "obj_insert ((k', v') # ob) k v =
     (if isArrayIndex k \<and> (\<not> isArrayIndex k' \<or> decimal k < decimal k')
      then (k, v) # (k', v') # ob
      else (k', v') # obj_insert ob k v)"

fun obj_replace :: "'v obj \<Rightarrow> string \<Rightarrow> 'v \<Rightarrow> 'v obj" where
  "obj_replace [] k v = []"
| "obj_replace ((k', v') # ob) k v =
     (if k' = k then (k, v) # ob else (k', v') # obj_replace ob k v)"

definition obj_define :: "'v obj \<Rightarrow> string \<Rightarrow> 'v \<Rightarrow> 'v obj" where
  "obj_define ob k v = (if obj_get ob k = None then obj_insert ob k v else obj_replace ob k v)"

definition obj_set :: "'v obj \<Rightarrow> string \<Rightarrow> 'v \<Rightarrow> 'v obj" where
  "obj_set ob k v =
     (if k = ''__proto__'' \<and> obj_get ob k = None then ob else obj_define ob k v)"

definition obj_delete :: "'v obj \<Rightarrow> string \<Rightarrow> 'v obj" where
  "obj_delete ob k = filter (\<lambda>kv. fst kv \<noteq> k) ob"

definition obj_spread :: "'v obj \<Rightarrow> 'v obj \<Rightarrow> 'v obj" where
  "obj_spread a b = foldl (\<lambda>acc kv. obj_define acc (fst kv) (snd kv)) [] (a @ b)"

text \<open>
  An optional string (\<open>undefined\<close> is \<open>None\<close>) is truthy when it is present and not
  empty; a template literal, and the conversion to a property key, print
  \<open>undefined\<close> for an absent one.
\<close>

definition truthy :: "string option \<Rightarrow> bool" where
  "truthy s = (case s of None \<Rightarrow> False | Some v \<Rightarrow> v \<noteq> [])"

definition interpolate :: "string option \<Rightarrow> string" where
  "interpolate s = (case s of None \<Rightarrow> ''undefined'' | Some v \<Rightarrow> v)"

section \<open>Data model\<close>

datatype SegmentLevel = PROJECT_GROUP | PROJECT | SUBPROJECT

record ActivityTypeDisplay =
  default_text :: string
  short :: string
  channel :: string

record ActivityTypeSetting =
  display :: ActivityTypeDisplay
  isContribution :: bool

text \<open>An entry of the unnested view: the setting's own fields and the platform.\<close>

record UnnestedActivityType = ActivityTypeSetting +
  platform :: string

text \<open>
  \<open>custom\<close>: platform, then type key, then setting. A platform may hold \<open>null\<close>
  (\<open>None\<close>) in place of its object, which is what the filter of
  \<open>unnestActivityTypes\<close> guards against.
\<close>

type_synonym CustomActivityTypes = "ActivityTypeSetting obj option obj"

type_synonym UnnestedActivityTypes = "UnnestedActivityType obj"

type_synonym ChannelMap = "string list obj"

record ActivityTypeSettings =
  default_types :: "ActivityTypeSetting obj obj"
  custom :: CustomActivityTypes

record SegmentData =
  id_segment :: "nat option"
  name :: string
  slug :: string
  parentSlug :: "string option"
  grandparentSlug :: "string option"
  parentName :: "string option"
  grandparentName :: "string option"
  customActivityTypes :: CustomActivityTypes
  activityChannels :: ChannelMap

record SegmentUpdateData =
  name_u :: "string option"
  slug_u :: "string option"
  customActivityTypes_u :: "CustomActivityTypes option"
  activityChannels_u :: "ChannelMap option"

record SegmentActivityTypesCreateData =
  type :: "string option"

record ActivityChannelsData =
  data_platform :: "string option"
  data_channel :: "string option"

datatype error =
  Error string
| Error400 string string "string option"
| Error404
| TypeError string

text \<open>
  The runtime library is not part of the sources. The service meets it at two
  places, and what it does there is a parameter of the model, the record
  \<open>Runtime\<close>. \<open>toLowerCase\<close> is \<open>String.prototype.toLowerCase\<close>. \<open>builtin b p\<close>
  describes the property \<open>p\<close> of the built-in object that a plain object inherits
  under the name \<open>b\<close> (the function \<open>Object\<close> under \<open>constructor\<close>,
  \<open>Object.prototype\<close> under \<open>__proto__\<close>), as \<open>createActivityType\<close> meets it when
  its platform key is such a name: the property \<open>Holds\<close> a truthy value, or it is
  \<open>Free\<close> (it reads falsy, and an assignment to it goes through), or reading it or
  assigning to it \<open>Throws\<close>.
\<close>

datatype slot = Holds | Free | Throws error

record Runtime =
  toLowerCase :: "string \<Rightarrow> string"
  builtin :: "string \<Rightarrow> string \<Rightarrow> slot"

section \<open>The collaborators: store, transactions, request context\<close>

text \<open>
  The service talks to a segment repository, a transaction manager and the request
  context. None of them is part of the sources; they are modelled from the
  specification's interface section as an in-memory store. Every call to the store
  or to the transaction manager is recorded in \<open>calls\<close>, and the schedule \<open>faults\<close>
  says how it ends: the entry at the call's position (the number of calls made
  before it) is \<open>Some e\<close> when the call throws \<open>e\<close> without effect, and \<open>None\<close>
  (or beyond the end of the schedule) when it runs.
\<close>

datatype call =
  CreateTransaction
| CommitTransaction nat
| RollbackTransaction "nat option"
| Create "nat option" SegmentData
| Update "nat option" "nat option" SegmentUpdateData
| UpdateChildrenBulk "nat option" "nat option" "string option" "string option"
| FindById "nat option"
| FindBySlug "nat option" "string option" SegmentLevel

datatype TransactionState = Open | Committed | RolledBack

record Transaction =
  state :: TransactionState
  table :: "SegmentData list"

record World =
  language :: string
  currentSegments :: "nat list"
  defaults :: "ActivityTypeSetting obj obj"
  rows :: "SegmentData list"
  transactions :: "Transaction list"
  nextId :: nat
  faults :: "error option list"
  calls :: "call list"

text \<open>
  An operation runs on a world and ends with a value or a thrown error; the world it
  leaves behind is kept in both cases, so what a throwing operation did before the
  throw stays visible.
\<close>

type_synonym 'a io = "World \<Rightarrow> (error + 'a) \<times> World"

definition ret :: "'a \<Rightarrow> 'a io" where
  "ret x = (\<lambda>w. (Inr x, w))"

definition throw :: "error \<Rightarrow> 'a io" where
  "throw e = (\<lambda>w. (Inl e, w))"

definition bind :: "'a io \<Rightarrow> ('a \<Rightarrow> 'b io) \<Rightarrow> 'b io" where
  "bind m f = (\<lambda>w. case m w of (Inl e, w') \<Rightarrow> (Inl e, w') | (Inr x, w') \<Rightarrow> f x w')"

definition tryCatch :: "'a io \<Rightarrow> (error \<Rightarrow> 'a io) \<Rightarrow> 'a io" where
  "tryCatch m h = (\<lambda>w. case m w of (Inl e, w') \<Rightarrow> h e w' | (Inr x, w') \<Rightarrow> (Inr x, w'))"

definition outcome :: "error option list \<Rightarrow> nat \<Rightarrow> error option" where
  "outcome fs i = (if i < length fs then fs ! i else None)"

definition invoke :: "call \<Rightarrow> unit io" where
  "invoke c = (\<lambda>w.
     case outcome (faults w) (length (calls w)) of
       None \<Rightarrow> (Inr (), w\<lparr>calls := calls w @ [c]\<rparr>)
     | Some e \<Rightarrow> (Inl e, w\<lparr>calls := calls w @ [c]\<rparr>))"

text \<open>
  Modelled from the spec: the transaction collaborator
  (\<open>createTransaction(ctx) -> Txn\<close>, \<open>commitTransaction(txn)\<close>,
  \<open>rollbackTransaction(txn)\<close>). A transaction works on a copy of the table taken
  when it is opened; committing an open transaction publishes the copy, rolling it
  back drops it. A handle is the transaction's index. \<open>rollbackTransaction\<close>
  receives what the caller read from the handle's \<open>transaction\<close> property, \<open>None\<close>
  standing for \<open>undefined\<close>.
\<close>

definition createTransaction :: "nat io" where
  "createTransaction =
     bind (invoke CreateTransaction) (\<lambda>_ w.
       (Inr (length (transactions w)),
        w\<lparr>transactions := transactions w @ [\<lparr>state = Open, table = rows w\<rparr>]\<rparr>))"

definition isOpen :: "World \<Rightarrow> nat \<Rightarrow> bool" where
  "isOpen w h = (h < length (transactions w) \<and> state (transactions w ! h) = Open)"

definition commitTransaction :: "nat \<Rightarrow> unit io" where
  "commitTransaction h =
     bind (invoke (CommitTransaction h)) (\<lambda>_ w.
       if isOpen w h
       then (Inr (), w\<lparr>rows := table (transactions w ! h),
                        transactions := (transactions w)[h := (transactions w ! h)\<lparr>state := Committed\<rparr>]\<rparr>)
       else (Inl (Error ''Transaction cannot be committed because it is not open''), w))"

definition rollbackTransaction :: "nat option \<Rightarrow> unit io" where
  "rollbackTransaction t =
     bind (invoke (RollbackTransaction t)) (\<lambda>_ w.
       case t of
         None \<Rightarrow> (Inl (TypeError ''Cannot read properties of undefined (reading 'rollback')''), w)
       | Some h \<Rightarrow>
           if isOpen w h
           then (Inr (), w\<lparr>transactions := (transactions w)[h := (transactions w ! h)\<lparr>state := RolledBack\<rparr>]\<rparr>)
           else (Inl (Error ''Transaction cannot be rolled back because it is not open''), w))"

text \<open>
  Modelled from the spec: the level of a row. A project group has no parent and no
  grandparent, a project has a parent, a subproject has both (invariant I1);
  \<open>isSubproject(segment) -> boolean\<close> is the last case.
\<close>

definition isSubproject :: "SegmentData \<Rightarrow> bool" where
  "isSubproject s = (truthy (parentSlug s) \<and> truthy (grandparentSlug s))"

definition segmentLevel :: "SegmentData \<Rightarrow> SegmentLevel" where
  "segmentLevel s =
     (if isSubproject s then SUBPROJECT
      else if truthy (parentSlug s) then PROJECT
      else PROJECT_GROUP)"

text \<open>
  Modelled from the spec: the segment repository (\<open>create(data) -> Segment\<close>,
  \<open>update(id, data) -> Segment\<close>, \<open>updateChildrenBulk(parentId, {name?, slug?})\<close>,
  \<open>findById(id) -> Segment|null\<close>, \<open>findBySlug(slug, level) -> Segment|null\<close>). A
  repository built with a transaction handle (\<open>Some h\<close>) reads and writes that
  transaction's copy of the table; one built without (\<open>None\<close>) works on the
  committed rows.
\<close>

definition readTable :: "nat option \<Rightarrow> SegmentData list io" where
  "readTable tx = (\<lambda>w.
     case tx of
       None \<Rightarrow> (Inr (rows w), w)
     | Some h \<Rightarrow>
         if isOpen w h then (Inr (table (transactions w ! h)), w)
         else (Inl (Error ''The transaction is not open''), w))"

definition writeTable :: "nat option \<Rightarrow> SegmentData list \<Rightarrow> unit io" where
  "writeTable tx t = (\<lambda>w.
     case tx of
       None \<Rightarrow> (Inr (), w\<lparr>rows := t\<rparr>)
     | Some h \<Rightarrow>
         (Inr (), w\<lparr>transactions := (transactions w)[h := (transactions w ! h)\<lparr>table := t\<rparr>]\<rparr>))"

definition freshId :: "nat io" where
  "freshId = (\<lambda>w. (Inr (nextId w), w\<lparr>nextId := Suc (nextId w)\<rparr>))"

definition repo_create :: "nat option \<Rightarrow> SegmentData \<Rightarrow> SegmentData io" where
  "repo_create tx d =
     bind (invoke (Create tx d)) (\<lambda>_.
     bind (readTable tx) (\<lambda>t.
     bind freshId (\<lambda>i.
     bind (writeTable tx (t @ [d\<lparr>id_segment := Some i\<rparr>])) (\<lambda>_.
     ret (d\<lparr>id_segment := Some i\<rparr>)))))"

definition repo_findById :: "nat option \<Rightarrow> nat option \<Rightarrow> SegmentData option io" where
  "repo_findById tx i =
     bind (invoke (FindById i)) (\<lambda>_.
     bind (readTable tx) (\<lambda>t.
     ret (find (\<lambda>r. i \<noteq> None \<and> id_segment r = i) t)))"

definition repo_findBySlug ::
  "nat option \<Rightarrow> string option \<Rightarrow> SegmentLevel \<Rightarrow> SegmentData option io" where
  "repo_findBySlug tx s lvl =
     bind (invoke (FindBySlug tx s lvl)) (\<lambda>_.
     bind (readTable tx) (\<lambda>t.
     ret (find (\<lambda>r. Some (slug r) = s \<and> segmentLevel r = lvl) t)))"

definition applyUpdate :: "SegmentUpdateData \<Rightarrow> SegmentData \<Rightarrow> SegmentData" where
  "applyUpdate d r =
     r\<lparr>name := (case name_u d of None \<Rightarrow> name r | Some v \<Rightarrow> v),
       slug := (case slug_u d of None \<Rightarrow> slug r | Some v \<Rightarrow> v),
       customActivityTypes :=
         (case customActivityTypes_u d of None \<Rightarrow> customActivityTypes r | Some v \<Rightarrow> v),
       activityChannels :=
         (case activityChannels_u d of None \<Rightarrow> activityChannels r | Some v \<Rightarrow> v)\<rparr>"

definition repo_update ::
  "nat option \<Rightarrow> nat option \<Rightarrow> SegmentUpdateData \<Rightarrow> SegmentData io" where
  "repo_update tx i d =
     bind (invoke (Update tx i d)) (\<lambda>_.
     bind (readTable tx) (\<lambda>t.
       case find (\<lambda>r. i \<noteq> None \<and> id_segment r = i) t of
         None \<Rightarrow> throw Error404
       | Some r \<Rightarrow>
           bind (writeTable tx
                  (map (\<lambda>r. if i \<noteq> None \<and> id_segment r = i then applyUpdate d r else r) t))
             (\<lambda>_. ret (applyUpdate d r))))"

text \<open>
  What the bulk statement does to the table (which rows count as the children of the
  given parent id, and which of their columns it rewrites) is not in the sources and
  not fixed by the specification; it is the parameter \<open>bulk\<close>.
\<close>

type_synonym bulk_effect =
  "nat option \<Rightarrow> string option \<Rightarrow> string option \<Rightarrow> SegmentData list \<Rightarrow> SegmentData list"

definition repo_updateChildrenBulk ::
  "bulk_effect \<Rightarrow> nat option \<Rightarrow> nat option \<Rightarrow> string option \<Rightarrow> string option \<Rightarrow> unit io" where
  "repo_updateChildrenBulk bulk tx p n s =
     bind (invoke (UpdateChildrenBulk tx p n s)) (\<lambda>_.
     bind (readTable tx) (\<lambda>t.
     writeTable tx (bulk p n s t)))"

text \<open>
  Modelled from the spec: the request context. \<open>currentSegments\<close> holds the ids of
  the segments the context addresses; \<open>getStrictlySingleActiveSegment\<close> fails unless
  exactly one is addressable, and the two configuration getters read the blobs of
  the addressed segment (of the first one, when the context holds several).
\<close>

definition activeSegments :: "World \<Rightarrow> SegmentData list" where
  "activeSegments w =
     List.map_filter (\<lambda>i. find (\<lambda>r. id_segment r = Some i) (rows w)) (currentSegments w)"

definition getStrictlySingleActiveSegment :: "SegmentData io" where
  "getStrictlySingleActiveSegment = (\<lambda>w.
     case activeSegments w of
       [s] \<Rightarrow> (Inr s, w)
     | _ \<Rightarrow> (Inl (Error ''This operation can have exactly one segment.''), w))"

definition getActivityTypes :: "World \<Rightarrow> ActivityTypeSettings" where
  "getActivityTypes w =
     \<lparr>default_types = defaults w,
      custom = (case activeSegments w of [] \<Rightarrow> [] | s # _ \<Rightarrow> customActivityTypes s)\<rparr>"

definition getActivityChannels :: "World \<Rightarrow> ChannelMap" where
  "getActivityChannels w =
     (case activeSegments w of [] \<Rightarrow> [] | s # _ \<Rightarrow> activityChannels s)"

text \<open>The \<open>activityTypes\<close> property of a segment the repository returns.\<close>

definition activityTypes_of :: "World \<Rightarrow> SegmentData \<Rightarrow> ActivityTypeSettings" where
  "activityTypes_of w s = \<lparr>default_types = defaults w, custom = customActivityTypes s\<rparr>"

section \<open>The segment service\<close>

text \<open>
  The functions of \<open>SegmentService\<close>, in the order of the source. The object that
  \<open>createTransaction\<close> returns is declared outside the sources; the catch blocks
  hand its property \<open>transaction\<close> to \<open>rollbackTransaction\<close>, and what that
  property holds is the parameter \<open>transaction_of\<close> (\<open>None\<close> when the object has
  no such property, \<open>Some h\<close> when it designates the transaction \<open>h\<close>).

  In \<open>update\<close> the segment read at the start is \<open>null\<close> only for an id the store
  does not know, and then the repository's update has thrown before the test on
  the segment is reached; the \<open>None\<close> branch stands for the \<open>TypeError\<close> that
  reading a property of \<open>null\<close> raises.
\<close>

definition findById :: "nat option \<Rightarrow> SegmentData option io" where
  "findById i = repo_findById None i"

definition update ::
  "(nat \<Rightarrow> nat option) \<Rightarrow> bulk_effect \<Rightarrow> nat \<Rightarrow> SegmentUpdateData \<Rightarrow> SegmentData option io" where
  "update transaction_of bulk i d =
     bind (findById (Some i)) (\<lambda>segment.
     bind createTransaction (\<lambda>transaction.
     tryCatch
       (bind (repo_update (Some transaction) (Some i) d) (\<lambda>_.
        bind (case segment of
                None \<Rightarrow> throw (TypeError ''Cannot read properties of null'')
              | Some s \<Rightarrow>
                  if \<not> isSubproject s \<and> (truthy (name_u d) \<or> truthy (slug_u d))
                  then repo_updateChildrenBulk bulk (Some transaction) (id_segment s)
                         (name_u d) (slug_u d)
                  else ret ()) (\<lambda>_.
        bind (commitTransaction transaction) (\<lambda>_.
        findById (Some i)))))
       (\<lambda>error.
          bind (rollbackTransaction (transaction_of transaction)) (\<lambda>_. throw error))))"

definition createProjectGroup ::
  "(nat \<Rightarrow> nat option) \<Rightarrow> SegmentData \<Rightarrow> SegmentData option io" where
  "createProjectGroup transaction_of d =
     (if truthy (parentSlug d) \<or> truthy (grandparentSlug d)
      then throw (Error ''Project groups can't have parent or grandparent segments.'')
      else
        bind createTransaction (\<lambda>transaction.
        tryCatch
          (bind (repo_create (Some transaction) d) (\<lambda>projectGroup.
           bind (repo_create (Some transaction)
                   (d\<lparr>parentSlug := Some (slug d), parentName := Some (name d)\<rparr>)) (\<lambda>_.
           bind (repo_create (Some transaction)
                   (d\<lparr>parentSlug := Some (slug d), grandparentSlug := Some (slug d),
                      parentName := Some (name d), grandparentName := Some (name d)\<rparr>)) (\<lambda>_.
           bind (commitTransaction transaction) (\<lambda>_.
           findById (id_segment projectGroup))))))
          (\<lambda>error.
             bind (rollbackTransaction (transaction_of transaction)) (\<lambda>_. throw error))))"

definition createProject ::
  "(nat \<Rightarrow> nat option) \<Rightarrow> SegmentData \<Rightarrow> SegmentData option io" where
  "createProject transaction_of d =
     (if truthy (grandparentSlug d)
      then throw (Error ''Projects can't have grandparent segments.'')
      else if \<not> truthy (parentSlug d)
      then throw (Error ''Missing parentSlug. Projects must belong to a project group.'')
      else
        bind createTransaction (\<lambda>transaction.
        bind (repo_findBySlug (Some transaction) (parentSlug d) PROJECT_GROUP) (\<lambda>parent.
        case parent of
          None \<Rightarrow>
            throw (Error (''Project group '' @ interpolate (parentName d) @ '' does not exist.''))
        | Some _ \<Rightarrow>
            tryCatch
              (bind (repo_create (Some transaction) d) (\<lambda>project.
               bind (repo_create (Some transaction)
                       (d\<lparr>parentSlug := Some (slug d), grandparentSlug := parentSlug d,
                          name := name d, parentName := Some (name d)\<rparr>)) (\<lambda>_.
               bind (commitTransaction transaction) (\<lambda>_.
               findById (id_segment project)))))
              (\<lambda>error.
                 bind (rollbackTransaction (transaction_of transaction)) (\<lambda>_. throw error)))))"

definition createSubproject :: "SegmentData \<Rightarrow> SegmentData option io" where
  "createSubproject d =
     (if \<not> truthy (parentSlug d)
      then throw (Error ''Missing parentSlug. Subprojects must belong to a project.'')
      else if \<not> truthy (grandparentSlug d)
      then throw (Error ''Missing grandparentSlug. Subprojects must belong to a project group.'')
      else
        bind (repo_create None d) (\<lambda>subproject.
        findById (id_segment subproject)))"

text \<open>
  Modelled from the spec: \<open>PlatformType.OTHER\<close>, the default platform, is the
  sentinel value \<open>other\<close>.
\<close>

definition PlatformType_OTHER :: string where
  "PlatformType_OTHER = ''other''"

text \<open>The object literal that both the create and the update path store for a type.\<close>

definition newActivityType :: "string \<Rightarrow> ActivityTypeSetting" where
  "newActivityType ty =
     \<lparr>display = \<lparr>default_text = ty, short = ty, channel = []\<rparr>, isContribution = False\<rparr>"

text \<open>\<open>custom[platform]\<close> for an own key whose value is not \<open>null\<close>.\<close>

definition platformTypes :: "CustomActivityTypes \<Rightarrow> string \<Rightarrow> ActivityTypeSetting obj option" where
  "platformTypes c p = (case obj_get c p of Some (Some tm) \<Rightarrow> Some tm | _ \<Rightarrow> None)"

text \<open>
  \<open>createActivityType\<close>. \<open>custom1\<close> is the configuration after lines 177 to 179:
  \<open>custom[platformKey]\<close> is set to an empty object when what is read there is
  falsy, and an inherited built-in object is truthy. The test of line 182 and the
  assignment of line 186 then work on \<open>custom[platformKey]\<close>. When that is an own
  type map, the entry is added unless \<open>[typeKey]\<close> reads truthy in it, own or
  inherited. When it is an inherited built-in object, line 182 reads a property of
  that object and line 186 assigns to it, as \<open>builtin\<close> says; the configuration
  that is then written back is the one that was read. The assignment changes the
  built-in object for the rest of the process, which the model does not follow:
  it describes a call made while the built-in objects are as the runtime
  provides them. After line 179 \<open>custom[platformKey]\<close> is never falsy.
\<close>

definition createActivityType ::
  "Runtime \<Rightarrow> SegmentActivityTypesCreateData \<Rightarrow> string option \<Rightarrow> ActivityTypeSettings io" where
  "createActivityType rt data platform_arg =
     (if \<not> truthy (type data)
      then (\<lambda>w. throw (Error400 (language w)
                    ''settings.activityTypes.errors.typeRequiredWhenCreating'' None) w)
      else
        bind getStrictlySingleActiveSegment (\<lambda>segment w.
          let ty = (case type data of None \<Rightarrow> [] | Some v \<Rightarrow> v);
              typeKey = toLowerCase rt ty;
              platformKey =
                toLowerCase rt (case platform_arg of None \<Rightarrow> PlatformType_OTHER | Some p \<Rightarrow> p);
              activityTypes = getActivityTypes w;
              custom1 =
                (case obj_read (custom activityTypes) platformKey of
                   Own (Some _) \<Rightarrow> custom activityTypes
                 | Inherited \<Rightarrow> custom activityTypes
                 | _ \<Rightarrow> obj_set (custom activityTypes) platformKey (Some []))
          in
            case obj_read custom1 platformKey of
              Own (Some tm) \<Rightarrow>
                (case obj_read tm typeKey of
                   Missing \<Rightarrow>
                     bind (repo_update None (id_segment segment)
                             \<lparr>name_u = None, slug_u = None,
                              customActivityTypes_u =
                                Some (obj_set custom1 platformKey
                                        (Some (obj_set tm typeKey (newActivityType ty)))),
                              activityChannels_u = None\<rparr>)
                       (\<lambda>updated w'. ret (activityTypes_of w' updated) w') w
                 | _ \<Rightarrow> ret (activityTypes\<lparr>custom := custom1\<rparr>) w)
            | Inherited \<Rightarrow>
                (case builtin rt platformKey typeKey of
                   Holds \<Rightarrow> ret (activityTypes\<lparr>custom := custom1\<rparr>) w
                 | Throws e \<Rightarrow> throw e w
                 | Free \<Rightarrow>
                     bind (repo_update None (id_segment segment)
                             \<lparr>name_u = None, slug_u = None,
                              customActivityTypes_u = Some custom1,
                              activityChannels_u = None\<rparr>)
                       (\<lambda>updated w'. ret (activityTypes_of w' updated) w') w)
            | _ \<Rightarrow> throw (TypeError ''Cannot read properties of undefined'') w))"

text \<open>
  \<open>withPlatform s p\<close> is \<open>{...s, platform: p}\<close>. In the two folds of
  \<open>unnestActivityTypes\<close> the keys come from \<open>Object.keys\<close> of the object they are
  looked up in, so the lookups read own properties and their \<open>None\<close> branches are
  never taken. The inner fold assigns \<open>acc2[key] = ...\<close>, the outer one spreads.
\<close>

definition withPlatform :: "ActivityTypeSetting \<Rightarrow> string \<Rightarrow> UnnestedActivityType" where
  "withPlatform s p = \<lparr>display = display s, isContribution = isContribution s, platform = p\<rparr>"

definition unnestWithPlatform :: "string \<Rightarrow> ActivityTypeSetting obj \<Rightarrow> UnnestedActivityTypes" where
  "unnestWithPlatform p tm =
     foldl (\<lambda>acc2 key.
              case obj_get tm key of
                None \<Rightarrow> acc2
              | Some s \<Rightarrow> obj_set acc2 key (withPlatform s p))
       [] (obj_keys tm)"

definition unnestActivityTypes :: "ActivityTypeSettings \<Rightarrow> UnnestedActivityTypes" where
  "unnestActivityTypes activityTypes =
     foldl (\<lambda>acc p.
              case platformTypes (custom activityTypes) p of
                None \<Rightarrow> acc
              | Some tm \<Rightarrow> obj_spread acc (unnestWithPlatform p tm))
       []
       (filter (\<lambda>k. platformTypes (custom activityTypes) k \<noteq> None)
          (obj_keys (custom activityTypes)))"


definition platformProperty :: "UnnestedActivityType property \<Rightarrow> string" where
  "platformProperty r = (case r of Own u \<Rightarrow> platform u | _ \<Rightarrow> ''undefined'')"


definition destroyActivityType :: "string \<Rightarrow> ActivityTypeSettings io" where
  "destroyActivityType key = (\<lambda>w.
     let activityTypes = getActivityTypes w in
     bind getStrictlySingleActiveSegment (\<lambda>segment.
       let activityTypesUnnested = unnestActivityTypes activityTypes in
       case obj_read activityTypesUnnested key of
         Missing \<Rightarrow> ret activityTypes
       | r \<Rightarrow>
           (case obj_read (custom activityTypes) (platformProperty r) of
              Own (Some tm) \<Rightarrow>
                bind (repo_update None (id_segment segment)
                        \<lparr>name_u = None, slug_u = None,
                         customActivityTypes_u =
                           Some (obj_set (custom activityTypes) (platformProperty r)
                                   (Some (obj_delete tm key))),
                         activityChannels_u = None\<rparr>)
                  (\<lambda>updated w'. ret (activityTypes_of w' updated) w')
            | _ \<Rightarrow> throw (TypeError ''Cannot convert undefined or null to object''))) w)"

definition listActivityTypes :: "World \<Rightarrow> ActivityTypeSettings" where
  "listActivityTypes options = getActivityTypes options"

text \<open>
  \<open>updateActivityChannels\<close>. When \<open>activityChannels[data.platform]\<close> reads an
  inherited built-in object the test of line 307 succeeds and line 309 calls its
  property \<open>includes\<close>, which no such object has: a \<open>TypeError\<close>.
\<close>

definition updateActivityChannels :: "ActivityChannelsData \<Rightarrow> ChannelMap io" where
  "updateActivityChannels data =
     (if \<not> truthy (data_channel data)
      then (\<lambda>w. throw (Error400 (language w)
                    ''settings.activityChannels.errors.typeRequiredWhenCreating'' None) w)
      else
        bind getStrictlySingleActiveSegment (\<lambda>segment w.
          let ch = (case data_channel data of None \<Rightarrow> [] | Some v \<Rightarrow> v);
              pk = interpolate (data_platform data);
              activityChannels0 = getActivityChannels w
          in
            case obj_read activityChannels0 pk of
              Inherited \<Rightarrow> throw (TypeError ''channelList.includes is not a function'') w
            | r \<Rightarrow>
                bind (repo_update None (id_segment segment)
                        \<lparr>name_u = None, slug_u = None, customActivityTypes_u = None,
                         activityChannels_u =
                           Some (case r of
                                   Own channelList \<Rightarrow>
                                     if ch \<in> set channelList then activityChannels0
                                     else obj_set activityChannels0 pk (channelList @ [ch])
                                 | _ \<Rightarrow> obj_set activityChannels0 pk [ch])\<rparr>)
                  (\<lambda>updated. ret (activityChannels updated)) w))"

section \<open>Notions used to state the properties\<close>

text \<open>
  \<open>entry c p k\<close> is the setting stored at \<open>custom[p][k]\<close>, if any.
  \<open>shownPlatform c k\<close> is the platform whose entry the unnested view shows for
  \<open>k\<close>: the last one, in enumeration order, that holds the key.
  \<open>platformsAfter c p\<close> are the platforms of \<open>c\<close> enumerated after \<open>p\<close>, the last
  one first.
\<close>

definition entry :: "CustomActivityTypes \<Rightarrow> string \<Rightarrow> string \<Rightarrow> ActivityTypeSetting option" where
  "entry c p k = (case platformTypes c p of None \<Rightarrow> None | Some tm \<Rightarrow> obj_get tm k)"

definition shownPlatform :: "CustomActivityTypes \<Rightarrow> string \<Rightarrow> string option" where
  "shownPlatform c k = find (\<lambda>p. entry c p k \<noteq> None) (rev (obj_keys c))"

definition platformsAfter :: "CustomActivityTypes \<Rightarrow> string \<Rightarrow> string list" where
  "platformsAfter c p = takeWhile (\<lambda>q. q \<noteq> p) (rev (obj_keys c))"

text \<open>
  The nested insertion of \<open>createActivityType\<close> (lines 177 to 179 and 186):
  \<open>custom[p]\<close> is initialised to an empty object when it reads falsy, then
  \<open>custom[p][k] = s\<close> is assigned. When \<open>custom[p]\<close> reads an inherited built-in
  object the assignment changes that object, and the configuration stays as it is.
\<close>

definition nestedInsert ::
  "CustomActivityTypes \<Rightarrow> string \<Rightarrow> string \<Rightarrow> ActivityTypeSetting \<Rightarrow> CustomActivityTypes" where
  "nestedInsert c p k s =
     (let c1 = (case obj_read c p of
                  Own (Some _) \<Rightarrow> c
                | Inherited \<Rightarrow> c
                | _ \<Rightarrow> obj_set c p (Some []))
      in case obj_read c1 p of
           Own (Some tm) \<Rightarrow> obj_set c1 p (Some (obj_set tm k s))
         | _ \<Rightarrow> c1)"

text \<open>
  \<open>idsFresh w\<close>: the ids of the stored rows lie below the next id the store hands
  out, so a new row's id is its own.
\<close>

definition idsFresh :: "World \<Rightarrow> bool" where
  "idsFresh w = (\<forall>r\<in>set (rows w). \<forall>i. id_segment r = Some i \<longrightarrow> i < nextId w)"

text \<open>
  \<open>newCalls w w'\<close>: the calls an operation added to the log on its way from \<open>w\<close> to
  \<open>w'\<close>; \<open>isRollback\<close> picks the calls of \<open>rollbackTransaction\<close>.
\<close>

definition newCalls :: "World \<Rightarrow> World \<Rightarrow> call list" where
  "newCalls w w' = drop (length (calls w)) (calls w')"

definition isRollback :: "call \<Rightarrow> bool" where
  "isRollback c = (case c of RollbackTransaction _ \<Rightarrow> True | _ \<Rightarrow> False)"

text \<open>The keys \<open>createActivityType\<close> computes from its arguments.\<close>

definition typeKeyOf :: "Runtime \<Rightarrow> SegmentActivityTypesCreateData \<Rightarrow> string" where
  "typeKeyOf rt data = toLowerCase rt (case type data of None \<Rightarrow> [] | Some v \<Rightarrow> v)"

definition platformKeyOf :: "Runtime \<Rightarrow> string option \<Rightarrow> string" where
  "platformKeyOf rt platform_arg =
     toLowerCase rt (case platform_arg of None \<Rightarrow> PlatformType_OTHER | Some p \<Rightarrow> p)"

text \<open>\<open>calm n w\<close>: the next \<open>n\<close> calls to the collaborators do not throw.\<close>

definition calm :: "nat \<Rightarrow> World \<Rightarrow> bool" where
  "calm n w = (\<forall>i<n. outcome (faults w) (length (calls w) + i) = None)"

section \<open>Example inputs\<close>

text \<open>Concrete settings, configurations and worlds on which the theorems are run.\<close>

text \<open>
  A runtime for strings of ASCII characters, on which \<open>toLowerCase\<close> maps the
  capitals to their small letters. Its built-in objects are described for the
  names in small letters, the only ones a lower-cased platform key and type key
  can ask for: the two objects are \<open>Object\<close> (under \<open>constructor\<close>) and
  \<open>Object.prototype\<close> (under \<open>__proto__\<close>). Both have what every object inherits
  from \<open>Object.prototype\<close>, and \<open>Object\<close> has its own properties and those of
  \<open>Function.prototype\<close>; the accessors \<open>arguments\<close> and \<open>caller\<close> of a built-in
  function throw, and the prototype of \<open>Object.prototype\<close> is \<open>null\<close> and cannot be
  assigned.
\<close>

definition asciiToLowerCase_char :: "char \<Rightarrow> char" where
  "asciiToLowerCase_char c =
     (if 65 \<le> (of_char c :: nat) \<and> (of_char c :: nat) \<le> 90
      then char_of ((of_char c :: nat) + 32) else c)"

definition asciiToLowerCase :: "string \<Rightarrow> string" where
  "asciiToLowerCase s = map asciiToLowerCase_char s"

definition nodeBuiltin :: "string \<Rightarrow> string \<Rightarrow> slot" where
  "nodeBuiltin b p =
     (if b = ''__proto__'' \<and> p = ''__proto__''
      then Throws (TypeError ''Immutable prototype object 'Object.prototype' cannot have their prototype set'')
      else if p \<in> set protoKeys then Holds
      else if b = ''constructor'' \<and> p \<in> set [''arguments'', ''caller'']
      then Throws (TypeError ''The properties 'caller', 'callee' and 'arguments' may not be accessed'')
      else if b = ''constructor''
            \<and> p \<in> set [''length'', ''name'', ''prototype'', ''assign'', ''create'', ''entries'',
                        ''freeze'', ''is'', ''keys'', ''seal'', ''values'', ''apply'', ''bind'', ''call'']
      then Holds
      else Free)"

definition asciiRuntime :: Runtime where
  "asciiRuntime = \<lparr>toLowerCase = asciiToLowerCase, builtin = nodeBuiltin\<rparr>"

definition starType :: ActivityTypeSetting where
  "starType = newActivityType ''Star''"

definition forkType :: ActivityTypeSetting where
  "forkType = newActivityType ''Fork''"

definition githubStar_otherFork :: CustomActivityTypes where
  "githubStar_otherFork =
     [(''github'', Some [(''star'', starType)]), (''other'', Some [(''fork'', forkType)])]"

definition githubEmpty_otherStar :: CustomActivityTypes where
  "githubEmpty_otherStar = [(''github'', Some []), (''other'', Some [(''star'', starType)])]"

definition segmentWith :: "CustomActivityTypes \<Rightarrow> ChannelMap \<Rightarrow> SegmentData" where
  "segmentWith c ch =
     \<lparr>id_segment = Some 0, name = ''Acme'', slug = ''acme'', parentSlug = None,
      grandparentSlug = None, parentName = None, grandparentName = None,
      customActivityTypes = c, activityChannels = ch\<rparr>"

text \<open>A world whose context addresses the one stored segment, with no fault scheduled.\<close>

definition worldWith :: "CustomActivityTypes \<Rightarrow> ChannelMap \<Rightarrow> World" where
  "worldWith c ch =
     \<lparr>language = ''en'', currentSegments = [0], defaults = [], rows = [segmentWith c ch],
      transactions = [], nextId = 1, faults = [], calls = []\<rparr>"


definition generalChannel :: ChannelMap where
  "generalChannel = [(''github'', [''general''])]"

definition emptyWorld :: World where
  "emptyWorld =
     \<lparr>language = ''en'', currentSegments = [], defaults = [], rows = [], transactions = [],
      nextId = 0, faults = [], calls = []\<rparr>"

definition acme :: SegmentData where
  "acme =
     \<lparr>id_segment = None, name = ''Acme'', slug = ''acme'', parentSlug = None,
      grandparentSlug = None, parentName = None, grandparentName = None,
      customActivityTypes = [], activityChannels = []\<rparr>"

text \<open>The three rows the cascade stores for \<open>acme\<close> in the empty world.\<close>

definition acmeRows :: "SegmentData list" where
  "acmeRows =
     [acme\<lparr>id_segment := Some 0\<rparr>,
      acme\<lparr>parentSlug := Some ''acme'', parentName := Some ''Acme'', id_segment := Some 1\<rparr>,
      acme\<lparr>parentSlug := Some ''acme'', grandparentSlug := Some ''acme'',
           parentName := Some ''Acme'', grandparentName := Some ''Acme'', id_segment := Some 2\<rparr>]"

text \<open>
  One possible bulk statement, used to run the theorems: the rows whose parent slug
  is the slug of the row with the given id take the given name and slug as their
  parent's.
\<close>

definition bulkBySlug :: bulk_effect where
  "bulkBySlug p n s t =
     (case find (\<lambda>r. p \<noteq> None \<and> id_segment r = p) t of
        None \<Rightarrow> t
      | Some parent \<Rightarrow>
          map (\<lambda>r. if parentSlug r = Some (slug parent)
                    then r\<lparr>parentName := (case n of None \<Rightarrow> parentName r | Some v \<Rightarrow> Some v),
                           parentSlug := (case s of None \<Rightarrow> parentSlug r | Some v \<Rightarrow> Some v)\<rparr>
                    else r) t)"

text \<open>The world after the cascade for \<open>acme\<close>, and two project inputs.\<close>

definition acmeWorld :: World where
  "acmeWorld = emptyWorld\<lparr>rows := acmeRows, nextId := 3\<rparr>"

definition webProject :: SegmentData where
  "webProject =
     \<lparr>id_segment = None, name = ''Web'', slug = ''web'', parentSlug = Some ''acme'',
      grandparentSlug = None, parentName = Some ''Acme'', grandparentName = None,
      customActivityTypes = [], activityChannels = []\<rparr>"

definition ghostProject :: SegmentData where
  "ghostProject =
     \<lparr>id_segment = None, name = ''Web'', slug = ''web'', parentSlug = Some ''ghost'',
      grandparentSlug = None, parentName = None, grandparentName = None,
      customActivityTypes = [], activityChannels = []\<rparr>"

definition renameTo :: "string \<Rightarrow> SegmentUpdateData" where
  "renameTo n =
     \<lparr>name_u = Some n, slug_u = None, customActivityTypes_u = None, activityChannels_u = None\<rparr>"

text \<open>A group, a project under it and a subproject under the project.\<close>

definition treeGroup :: SegmentData where
  "treeGroup = acme\<lparr>id_segment := Some 0\<rparr>"

definition treeProject :: SegmentData where
  "treeProject = webProject\<lparr>id_segment := Some 1\<rparr>"

definition treeSubproject :: SegmentData where
  "treeSubproject =
     \<lparr>id_segment = Some 2, name = ''Api'', slug = ''api'', parentSlug = Some ''web'',
      grandparentSlug = Some ''acme'', parentName = Some ''Web'', grandparentName = Some ''Acme'',
      customActivityTypes = [], activityChannels = []\<rparr>"

definition treeWorld :: World where
  "treeWorld = emptyWorld\<lparr>rows := [treeGroup, treeProject, treeSubproject], nextId := 3\<rparr>"

text \<open>
  Two fault schedules: the second call throws (in \<open>createProject\<close> the parent
  lookup, in \<open>createProjectGroup\<close> the first create), and the fifth call throws (in
  \<open>createProject\<close> the commit).
\<close>

definition secondCallFails :: "error option list" where
  "secondCallFails = [None, Some (Error ''connection lost'')]"

definition fifthCallFails :: "error option list" where
  "fifthCallFails = [None, None, None, None, Some (Error ''deadlock'')]"

section \<open>Objects\<close>

lemma obj_get_None_iff: "obj_get ob k = None \<longleftrightarrow> k \<notin> set (obj_keys ob)"
  by (simp add: obj_get_def obj_keys_def map_of_eq_None_iff)

lemma obj_get_Nil: "obj_get [] k = None"
  by (simp add: obj_get_def)

lemma obj_get_insert:
  "obj_get ob k = None \<Longrightarrow> obj_get (obj_insert ob k v) k' = (if k' = k then Some v else obj_get ob k')"
  by (induction ob) (auto simp: obj_get_def split: if_splits)

lemma obj_get_replace:
  "obj_get (obj_replace ob k v) k' = (if k' = k \<and> obj_get ob k \<noteq> None then Some v else obj_get ob k')"
  by (induction ob) (auto simp: obj_get_def)

lemma obj_get_define: "obj_get (obj_define ob k v) k' = (if k' = k then Some v else obj_get ob k')"
  by (simp add: obj_define_def obj_get_insert obj_get_replace)

lemma obj_get_set:
  "obj_get (obj_set ob k v) k' =
     (if k = ''__proto__'' \<and> obj_get ob k = None then obj_get ob k'
      else if k' = k then Some v else obj_get ob k')"
proof (cases "k = ''__proto__'' \<and> obj_get ob k = None")
  case True
  then have "obj_set ob k v = ob" by (auto simp: obj_set_def)
  with True show ?thesis by auto
next
  case False
  then have "obj_set ob k v = obj_define ob k v" by (auto simp: obj_set_def)
  with False show ?thesis by (auto simp: obj_get_define)
qed

lemma obj_keys_define: "set (obj_keys (obj_define ob k v)) = insert k (set (obj_keys ob))"
proof -
  have "k' \<in> set (obj_keys (obj_define ob k v)) \<longleftrightarrow> k' \<in> insert k (set (obj_keys ob))" for k'
    using obj_get_None_iff[of "obj_define ob k v" k'] obj_get_None_iff[of ob k']
    by (simp add: obj_get_define split: if_splits)
  then show ?thesis by blast
qed

lemma obj_keys_replace: "obj_keys (obj_replace ob k v) = obj_keys ob"
  by (induction ob) (auto simp: obj_keys_def)

lemma obj_keys_set_present:
  "k \<in> set (obj_keys ob) \<Longrightarrow> obj_keys (obj_set ob k v) = obj_keys ob"
proof -
  assume "k \<in> set (obj_keys ob)"
  then have "obj_get ob k \<noteq> None" by (simp add: obj_get_None_iff)
  then show ?thesis by (auto simp: obj_set_def obj_define_def obj_keys_replace)
qed

lemma obj_keys_insert:
  assumes "k \<notin> set (obj_keys ob)"
  shows "set (obj_keys (obj_insert ob k v)) = insert k (set (obj_keys ob))"
proof -
  have n: "obj_get ob k = None" using assms by (simp add: obj_get_None_iff)
  have "k' \<in> set (obj_keys (obj_insert ob k v)) \<longleftrightarrow> k' \<in> insert k (set (obj_keys ob))" for k'
    using obj_get_None_iff[of "obj_insert ob k v" k'] obj_get_None_iff[of ob k']
    by (simp add: obj_get_insert[OF n] split: if_splits)
  then show ?thesis by blast
qed

lemma obj_insert_distinct:
  "distinct (obj_keys ob) \<Longrightarrow> k \<notin> set (obj_keys ob) \<Longrightarrow> distinct (obj_keys (obj_insert ob k v))"
proof (induction ob)
  case Nil
  then show ?case by (simp add: obj_keys_def)
next
  case (Cons a ob)
  obtain k' v' where a: "a = (k', v')" by (cases a)
  have d: "distinct (obj_keys ob)" and n: "k \<notin> set (obj_keys ob)" and kk: "k \<noteq> k'"
    and n': "k' \<notin> set (obj_keys ob)"
    using Cons.prems by (auto simp: a obj_keys_def)
  have "k' \<notin> set (obj_keys (obj_insert ob k v))"
    using n' kk by (simp add: obj_keys_insert[OF n])
  then show ?case
    using Cons.IH[OF d n] Cons.prems by (auto simp: a obj_keys_def)
qed

lemma obj_define_distinct: "distinct (obj_keys ob) \<Longrightarrow> distinct (obj_keys (obj_define ob k v))"
  by (simp add: obj_define_def obj_insert_distinct obj_keys_replace obj_get_None_iff)

lemma obj_set_distinct: "distinct (obj_keys ob) \<Longrightarrow> distinct (obj_keys (obj_set ob k v))"
  by (simp add: obj_set_def obj_define_distinct)

lemma obj_get_delete: "obj_get (obj_delete ob k) k' = (if k' = k then None else obj_get ob k')"
  by (induction ob) (auto simp: obj_get_def obj_delete_def)

lemma foldl_define_get:
  "obj_get (foldl (\<lambda>acc kv. obj_define acc (fst kv) (snd kv)) a b) k =
     (case map_of (rev b) k of None \<Rightarrow> obj_get a k | Some v \<Rightarrow> Some v)"
  by (induction b arbitrary: a) (auto simp: obj_get_define split: option.splits)

lemma foldl_define_distinct:
  "distinct (obj_keys a) \<Longrightarrow>
   distinct (obj_keys (foldl (\<lambda>acc kv. obj_define acc (fst kv) (snd kv)) a b))"
  by (induction b arbitrary: a) (auto simp: obj_define_distinct)

lemma obj_spread_distinct: "distinct (obj_keys (obj_spread a b))"
  unfolding obj_spread_def by (rule foldl_define_distinct) (simp add: obj_keys_def)

lemma map_of_rev_distinct: "distinct (map fst b) \<Longrightarrow> map_of (rev b) = map_of b"
  by (rule map_of_inject_set[THEN iffD2]) (auto simp: rev_map[symmetric])

lemma obj_get_spread:
  "distinct (obj_keys a) \<Longrightarrow>
   obj_get (obj_spread a b) k = (case map_of (rev b) k of None \<Rightarrow> obj_get a k | Some v \<Rightarrow> Some v)"
proof -
  assume "distinct (obj_keys a)"
  then have "map_of (rev a) k = obj_get a k"
    by (simp add: map_of_rev_distinct obj_keys_def obj_get_def)
  then show ?thesis
    by (simp add: obj_spread_def foldl_define_get obj_get_Nil split: option.splits)
qed

lemma obj_read_Own: "obj_get ob k = Some v \<Longrightarrow> obj_read ob k = Own v"
  by (simp add: obj_read_def)

lemma obj_read_Missing: "obj_get ob k = None \<Longrightarrow> k \<notin> set protoKeys \<Longrightarrow> obj_read ob k = Missing"
  by (simp add: obj_read_def)

lemma obj_read_Inherited: "obj_get ob k = None \<Longrightarrow> k \<in> set protoKeys \<Longrightarrow> obj_read ob k = Inherited"
  by (simp add: obj_read_def)

lemma proto_in_protoKeys: "''__proto__'' \<in> set protoKeys"
  by (simp add: protoKeys_def)

section \<open>The unnested view\<close>

text \<open>
  The view is computed by two nested folds; looked up at a key, it shows the entry
  of the last platform that holds the key. A type key \<open>__proto__\<close> is not shown:
  the assignment of the inner fold does not add it.
\<close>

lemma unnestWithPlatform_aux:
  "obj_get acc ''__proto__'' = None \<Longrightarrow>
   obj_get (foldl (\<lambda>acc2 key. case obj_get tm key of None \<Rightarrow> acc2
                      | Some s \<Rightarrow> obj_set acc2 key (withPlatform s p)) acc ks) k =
     (if k \<in> set ks \<and> obj_get tm k \<noteq> None \<and> k \<noteq> ''__proto__''
      then map_option (\<lambda>s. withPlatform s p) (obj_get tm k) else obj_get acc k)"
proof (induction ks arbitrary: acc)
  case Nil
  then show ?case by simp
next
  case (Cons a ks)
  show ?case
  proof (cases "obj_get tm a")
    case None
    then show ?thesis using Cons.IH[OF Cons.prems] by auto
  next
    case (Some s)
    have inv: "obj_get (obj_set acc a (withPlatform s p)) ''__proto__'' = None"
      using Cons.prems by (simp add: obj_get_set)
    show ?thesis
      using Some Cons.IH[OF inv] Cons.prems by (auto simp: obj_get_set)
  qed
qed

lemma obj_get_unnestWithPlatform:
  "obj_get (unnestWithPlatform p tm) k =
     (if k = ''__proto__'' then None else map_option (\<lambda>s. withPlatform s p) (obj_get tm k))"
proof (cases "obj_get tm k")
  case None
  then show ?thesis
    unfolding unnestWithPlatform_def by (simp add: unnestWithPlatform_aux obj_get_Nil)
next
  case (Some s)
  then have "k \<in> set (obj_keys tm)" using obj_get_None_iff[of tm k] by simp
  with Some show ?thesis
    unfolding unnestWithPlatform_def by (simp add: unnestWithPlatform_aux obj_get_Nil)
qed

lemma unnestWithPlatform_distinct_aux:
  "distinct (obj_keys acc) \<Longrightarrow> distinct (obj_keys (foldl (\<lambda>acc2 key. case obj_get tm key of None \<Rightarrow> acc2
                      | Some s \<Rightarrow> obj_set acc2 key (withPlatform s p)) acc ks))"
  by (induction ks arbitrary: acc) (auto simp: obj_set_distinct split: option.splits)

lemma unnestWithPlatform_distinct: "distinct (obj_keys (unnestWithPlatform p tm))"
  unfolding unnestWithPlatform_def by (rule unnestWithPlatform_distinct_aux) (simp add: obj_keys_def)

lemma obj_get_spread_unnest:
  assumes "distinct (obj_keys a)"
  shows "obj_get (obj_spread a (unnestWithPlatform p tm)) k =
     (if k = ''__proto__'' then obj_get a k
      else case obj_get tm k of None \<Rightarrow> obj_get a k | Some s \<Rightarrow> Some (withPlatform s p))"
proof -
  have "map_of (rev (unnestWithPlatform p tm)) k = obj_get (unnestWithPlatform p tm) k"
    using unnestWithPlatform_distinct[of p tm]
    by (simp add: map_of_rev_distinct obj_keys_def obj_get_def)
  then show ?thesis
    by (simp add: obj_get_spread[OF assms] obj_get_unnestWithPlatform split: option.splits)
qed

lemma find_append':
  "find P (xs @ ys) = (case find P xs of None \<Rightarrow> find P ys | Some x \<Rightarrow> Some x)"
  by (induction xs) auto

lemma unnest_fold:
  "distinct (obj_keys acc) \<Longrightarrow>
   obj_get (foldl (\<lambda>acc p. case platformTypes c p of None \<Rightarrow> acc
                     | Some tm \<Rightarrow> obj_spread acc (unnestWithPlatform p tm)) acc ps) k =
     (if k = ''__proto__'' then obj_get acc k
      else case find (\<lambda>p. entry c p k \<noteq> None) (rev ps) of
        None \<Rightarrow> obj_get acc k
      | Some p \<Rightarrow> map_option (\<lambda>s. withPlatform s p) (entry c p k))"
proof (induction ps arbitrary: acc)
  case Nil
  then show ?case by simp
next
  case (Cons p ps)
  show ?case
  proof (cases "platformTypes c p")
    case None
    then show ?thesis
      using Cons.IH[OF Cons.prems]
      by (auto simp: find_append' entry_def split: option.splits)
  next
    case (Some tm)
    have d: "distinct (obj_keys (obj_spread acc (unnestWithPlatform p tm)))"
      by (rule obj_spread_distinct)
    show ?thesis
      using Some Cons.IH[OF d]
      by (auto simp: find_append' entry_def obj_get_spread_unnest[OF Cons.prems] split: option.splits)
  qed
qed

lemma find_rev_filter:
  "(\<And>x. P x \<Longrightarrow> Q x) \<Longrightarrow> find P (rev (filter Q xs)) = find P (rev xs)"
  by (induction xs) (auto simp: find_append' split: option.splits)

lemma obj_get_unnestActivityTypes:
  "obj_get (unnestActivityTypes a) k =
     (if k = ''__proto__'' then None
      else case shownPlatform (custom a) k of
        None \<Rightarrow> None
      | Some p \<Rightarrow> map_option (\<lambda>s. withPlatform s p) (entry (custom a) p k))"
proof -
  have "find (\<lambda>p. entry (custom a) p k \<noteq> None)
          (rev (filter (\<lambda>p. platformTypes (custom a) p \<noteq> None) (obj_keys (custom a)))) =
        shownPlatform (custom a) k"
    unfolding shownPlatform_def
    by (rule find_rev_filter) (auto simp: entry_def split: option.splits)
  moreover have "distinct (obj_keys ([] :: UnnestedActivityTypes))" by (simp add: obj_keys_def)
  ultimately show ?thesis
    unfolding unnestActivityTypes_def by (simp add: unnest_fold obj_get_Nil split: option.splits)
qed

lemma platformTypes_set:
  "p \<noteq> ''__proto__'' \<or> obj_get c p \<noteq> None \<Longrightarrow>
   platformTypes (obj_set c p v) q = (if q = p then v else platformTypes c q)"
  by (auto simp: platformTypes_def obj_get_set split: option.splits)

lemma nestedInsert_absent_platform:
  "platformTypes c p = None \<Longrightarrow> p \<notin> set protoKeys \<Longrightarrow>
   nestedInsert c p k s = obj_set (obj_set c p (Some [])) p (Some (obj_set [] k s))"
  by (auto simp: nestedInsert_def Let_def platformTypes_def obj_read_def obj_get_set
        proto_in_protoKeys split: option.splits)

lemma nestedInsert_present_platform:
  "platformTypes c p = Some tm \<Longrightarrow> nestedInsert c p k s = obj_set c p (Some (obj_set tm k s))"
  by (auto simp: nestedInsert_def Let_def platformTypes_def obj_read_def split: option.splits)

lemma entry_nestedInsert:
  assumes "p \<notin> set protoKeys" and "k \<noteq> ''__proto__''"
  shows "entry (nestedInsert c p k s) q k' = (if q = p \<and> k' = k then Some s else entry c q k')"
proof -
  have pp: "p \<noteq> ''__proto__''" using assms(1) proto_in_protoKeys by auto
  show ?thesis
  proof (cases "platformTypes c p")
    case None
    then show ?thesis
      using pp assms(2)
      by (auto simp: nestedInsert_absent_platform[OF None assms(1)] entry_def platformTypes_set
            obj_get_set obj_get_Nil)
  next
    case (Some tm)
    then show ?thesis
      using pp assms(2)
      by (auto simp: nestedInsert_present_platform[OF Some] entry_def platformTypes_set obj_get_set)
  qed
qed

lemma obj_keys_set_mem: "k \<noteq> ''__proto__'' \<Longrightarrow> k \<in> set (obj_keys (obj_set ob k v))"
  by (simp add: obj_set_def obj_keys_define)

lemma nestedInsert_platform:
  assumes "p \<notin> set protoKeys"
  shows "p \<in> set (obj_keys (nestedInsert c p k s))"
proof -
  have pp: "p \<noteq> ''__proto__''" using assms proto_in_protoKeys by auto
  show ?thesis
  proof (cases "platformTypes c p")
    case None
    then show ?thesis
      using pp by (simp add: nestedInsert_absent_platform[OF None assms] obj_keys_set_mem)
  next
    case (Some tm)
    then show ?thesis
      using pp by (simp add: nestedInsert_present_platform[OF Some] obj_keys_set_mem)
  qed
qed

lemma find_takeWhile:
  "p \<in> set xs \<Longrightarrow> P p \<Longrightarrow> \<forall>q\<in>set (takeWhile (\<lambda>q. q \<noteq> p) xs). \<not> P q \<Longrightarrow> find P xs = Some p"
  by (induction xs) auto

lemma find_in_takeWhile:
  "\<exists>q\<in>set (takeWhile (\<lambda>q. q \<noteq> p) xs). P q \<Longrightarrow>
   \<exists>q. find P xs = Some q \<and> q \<in> set (takeWhile (\<lambda>q. q \<noteq> p) xs) \<and> P q"
  by (induction xs) (auto split: if_splits)

lemma shownPlatform_nestedInsert:
  assumes "p \<notin> set protoKeys" and "k \<noteq> ''__proto__''"
      and "\<forall>q\<in>set (platformsAfter (nestedInsert c p k s) p). entry (nestedInsert c p k s) q k = None"
  shows "shownPlatform (nestedInsert c p k s) k = Some p"
  unfolding shownPlatform_def
proof (rule find_takeWhile)
  show "p \<in> set (rev (obj_keys (nestedInsert c p k s)))"
    by (simp add: nestedInsert_platform[OF assms(1)])
  show "entry (nestedInsert c p k s) p k \<noteq> None"
    by (simp add: entry_nestedInsert[OF assms(1,2)])
  show "\<forall>q\<in>set (takeWhile (\<lambda>q. q \<noteq> p) (rev (obj_keys (nestedInsert c p k s)))).
          \<not> entry (nestedInsert c p k s) q k \<noteq> None"
    using assms(3) by (simp add: platformsAfter_def)
qed

text \<open>
  Claim C7, as amended. For a platform whose name is not that of a property every
  object inherits, and a key other than \<open>__proto__\<close>: placing a setting at
  \<open>custom[platform][key]\<close> and then unnesting yields, at \<open>key\<close>, the setting with the
  platform added, provided that in the resulting configuration no platform
  enumerated after \<open>platform\<close> holds the same key. When one does, the view shows at
  \<open>key\<close> the entry of the last platform holding it, with that platform added.
\<close>

theorem unnest_nestedInsert:
  assumes "p \<notin> set protoKeys" and "k \<noteq> ''__proto__''"
  shows "((\<forall>q\<in>set (platformsAfter (nestedInsert c p k s) p). entry (nestedInsert c p k s) q k = None)
          \<longrightarrow> obj_get (unnestActivityTypes \<lparr>default_types = dt, custom = nestedInsert c p k s\<rparr>) k
                = Some (withPlatform s p))
       \<and> ((\<exists>q\<in>set (platformsAfter (nestedInsert c p k s) p). entry (nestedInsert c p k s) q k \<noteq> None)
          \<longrightarrow> (\<exists>q s'. shownPlatform (nestedInsert c p k s) k = Some q
                 \<and> q \<in> set (platformsAfter (nestedInsert c p k s) p) \<and> q \<noteq> p
                 \<and> entry (nestedInsert c p k s) q k = Some s'
                 \<and> obj_get (unnestActivityTypes \<lparr>default_types = dt, custom = nestedInsert c p k s\<rparr>) k
                      = Some (withPlatform s' q)))"
proof (intro conjI impI)
  assume "\<forall>q\<in>set (platformsAfter (nestedInsert c p k s) p). entry (nestedInsert c p k s) q k = None"
  from shownPlatform_nestedInsert[OF assms this]
  show "obj_get (unnestActivityTypes \<lparr>default_types = dt, custom = nestedInsert c p k s\<rparr>) k
          = Some (withPlatform s p)"
    using assms(2) by (simp add: obj_get_unnestActivityTypes entry_nestedInsert[OF assms])
next
  let ?c = "nestedInsert c p k s"
  assume "\<exists>q\<in>set (platformsAfter ?c p). entry ?c q k \<noteq> None"
  then have "\<exists>q\<in>set (takeWhile (\<lambda>q. q \<noteq> p) (rev (obj_keys ?c))). entry ?c q k \<noteq> None"
    by (simp add: platformsAfter_def)
  from find_in_takeWhile[OF this] obtain q where
    f: "shownPlatform ?c k = Some q" and q: "q \<in> set (platformsAfter ?c p)"
    and e: "entry ?c q k \<noteq> None"
    by (auto simp: shownPlatform_def platformsAfter_def)
  from e obtain s' where s': "entry ?c q k = Some s'" by auto
  have "q \<noteq> p" using q set_takeWhileD[of q "\<lambda>q. q \<noteq> p"] by (auto simp: platformsAfter_def)
  moreover have "obj_get (unnestActivityTypes \<lparr>default_types = dt, custom = ?c\<rparr>) k
                   = Some (withPlatform s' q)"
    using assms(2) f s' by (simp add: obj_get_unnestActivityTypes)
  ultimately show "\<exists>q s'. shownPlatform ?c k = Some q \<and> q \<in> set (platformsAfter ?c p) \<and> q \<noteq> p
                 \<and> entry ?c q k = Some s'
                 \<and> obj_get (unnestActivityTypes \<lparr>default_types = dt, custom = ?c\<rparr>) k
                      = Some (withPlatform s' q)"
    using f q s' by blast
qed

theorem unnest_nestedInsert_witness:
  "''github'' \<notin> set protoKeys \<and> ''watch'' \<noteq> ''__proto__''
   \<and> platformsAfter (nestedInsert githubStar_otherFork ''github'' ''watch'' forkType) ''github''
       = [''other'']
   \<and> entry (nestedInsert githubStar_otherFork ''github'' ''watch'' forkType) ''other'' ''watch''
       = None
   \<and> obj_get (unnestActivityTypes
         \<lparr>default_types = [], custom = nestedInsert githubStar_otherFork ''github'' ''watch'' forkType\<rparr>)
         ''watch'' = Some (withPlatform forkType ''github'')
   \<and> ''2'' \<notin> set protoKeys \<and> ''star'' \<noteq> ''__proto__''
   \<and> platformsAfter (nestedInsert githubStar_otherFork ''2'' ''star'' forkType) ''2''
       = [''other'', ''github'']
   \<and> entry (nestedInsert githubStar_otherFork ''2'' ''star'' forkType) ''github'' ''star''
       = Some starType
   \<and> (\<exists>q s'. shownPlatform (nestedInsert githubStar_otherFork ''2'' ''star'' forkType) ''star'' = Some q
         \<and> q \<noteq> ''2''
         \<and> entry (nestedInsert githubStar_otherFork ''2'' ''star'' forkType) q ''star'' = Some s'
         \<and> obj_get (unnestActivityTypes
              \<lparr>default_types = [], custom = nestedInsert githubStar_otherFork ''2'' ''star'' forkType\<rparr>)
              ''star'' = Some (withPlatform s' q))"
proof -
  have p1: "''github'' \<notin> set protoKeys" and p2: "''2'' \<notin> set protoKeys"
    by (simp_all add: protoKeys_def)
  have k1: "''watch'' \<noteq> ''__proto__''" and k2: "''star'' \<noteq> ''__proto__''" by simp_all
  have a: "platformsAfter (nestedInsert githubStar_otherFork ''github'' ''watch'' forkType) ''github''
             = [''other'']"
    by code_simp
  have b: "entry (nestedInsert githubStar_otherFork ''github'' ''watch'' forkType) ''other'' ''watch''
             = None"
    by code_simp
  have c: "platformsAfter (nestedInsert githubStar_otherFork ''2'' ''star'' forkType) ''2''
             = [''other'', ''github'']"
    by code_simp
  have d: "entry (nestedInsert githubStar_otherFork ''2'' ''star'' forkType) ''github'' ''star''
             = Some starType"
    by code_simp
  show ?thesis
    using unnest_nestedInsert[OF p1 k1, of githubStar_otherFork forkType "[]"]
          unnest_nestedInsert[OF p2 k2, of githubStar_otherFork forkType "[]"]
          p1 p2 a b c d
    by simp blast
qed

text \<open>
  The claim as stated fails when a later platform holds the key: with \<open>star\<close>
  already under \<open>other\<close>, placing \<open>star\<close> under \<open>github\<close> leaves the view showing the
  entry of \<open>other\<close>.
\<close>

theorem unnest_nestedInsert_shadowed:
  "obj_get (unnestActivityTypes
      \<lparr>default_types = [],
       custom = nestedInsert githubEmpty_otherStar ''github'' ''star'' starType\<rparr>) ''star''
     = Some (withPlatform starType ''other'')
   \<and> withPlatform starType ''other'' \<noteq> withPlatform starType ''github''"
  by code_simp

section \<open>Running the configuration store\<close>

lemma calm_nth: "calm n w \<Longrightarrow> i < n \<Longrightarrow> outcome (faults w) (length (calls w) + i) = None"
  by (simp add: calm_def)

lemma calm_0: "calm (Suc n) w \<Longrightarrow> outcome (faults w) (length (calls w)) = None"
  using calm_nth[of "Suc n" w 0] by simp

lemma map_filter_single:
  "List.map_filter f xs = [y] \<Longrightarrow> \<exists>x\<in>set xs. f x = Some y"
  by (induction xs) (auto simp: List.map_filter_simps split: option.splits)

lemma find_Some_P: "find P xs = Some x \<Longrightarrow> P x"
  by (induction xs) (auto split: if_splits)

lemma active_single:
  assumes "activeSegments w = [seg]"
  shows "\<exists>i. id_segment seg = Some i \<and> find (\<lambda>r. id_segment r = Some i) (rows w) = Some seg"
proof -
  from map_filter_single[OF assms[unfolded activeSegments_def]]
  obtain i where i: "find (\<lambda>r. id_segment r = Some i) (rows w) = Some seg" by blast
  from find_Some_P[OF i] have "id_segment seg = Some i" .
  with i show ?thesis by blast
qed

lemma getStrict_single:
  "activeSegments w = [seg] \<Longrightarrow> getStrictlySingleActiveSegment w = (Inr seg, w)"
  by (simp add: getStrictlySingleActiveSegment_def)

lemma getActivityTypes_single:
  "activeSegments w = [seg] \<Longrightarrow>
   getActivityTypes w = \<lparr>default_types = defaults w, custom = customActivityTypes seg\<rparr>"
  by (simp add: getActivityTypes_def)

lemma repo_update_ok:
  assumes "calm (Suc n) w" and "find (\<lambda>r. id_segment r = Some i) (rows w) = Some r"
  shows "repo_update None (Some i) d w =
           (Inr (applyUpdate d r),
            w\<lparr>calls := calls w @ [Update None (Some i) d],
              rows := map (\<lambda>r. if id_segment r = Some i then applyUpdate d r else r) (rows w)\<rparr>)"
  using assms(2) calm_0[OF assms(1)]
  by (simp add: repo_update_def invoke_def readTable_def writeTable_def bind_def ret_def)

lemma applyUpdate_id: "id_segment (applyUpdate d r) = id_segment r"
  by (simp add: applyUpdate_def)

lemma find_map_update:
  "find (\<lambda>r. id_segment r = Some j)
     (map (\<lambda>r. if id_segment r = Some i then applyUpdate d r else r) rs) =
   map_option (\<lambda>r. if id_segment r = Some i then applyUpdate d r else r)
     (find (\<lambda>r. id_segment r = Some j) rs)"
  by (induction rs) (auto simp: applyUpdate_id)

lemma map_filter_map_option:
  "List.map_filter (\<lambda>x. map_option g (f x)) xs = map g (List.map_filter f xs)"
  by (induction xs) (auto simp: List.map_filter_simps split: option.splits)

lemma activeSegments_update:
  assumes "rows w' = map (\<lambda>r. if id_segment r = Some i then applyUpdate d r else r) (rows w)"
      and "currentSegments w' = currentSegments w"
  shows "activeSegments w' =
           map (\<lambda>r. if id_segment r = Some i then applyUpdate d r else r) (activeSegments w)"
  by (simp add: activeSegments_def assms find_map_update map_filter_map_option)

lemma unnest_holder:
  assumes "obj_get (unnestActivityTypes a) k = Some u"
  shows "\<exists>tm s. platformTypes (custom a) (platform u) = Some tm \<and> obj_get tm k = Some s
                \<and> u = withPlatform s (platform u)"
proof -
  from assms obtain p where p: "shownPlatform (custom a) k = Some p"
    and u: "map_option (\<lambda>s. withPlatform s p) (entry (custom a) p k) = Some u"
    by (auto simp: obj_get_unnestActivityTypes split: option.splits if_splits)
  from u obtain s where s: "entry (custom a) p k = Some s" and us: "u = withPlatform s p" by auto
  have "platform u = p" using us by (simp add: withPlatform_def)
  with s us show ?thesis by (auto simp: entry_def split: option.splits)
qed

lemma platformTypes_read: "platformTypes c p = Some tm \<Longrightarrow> obj_read c p = Own (Some tm)"
  by (auto simp: platformTypes_def obj_read_def split: option.splits)

lemma platformTypes_own: "platformTypes c p = Some tm \<Longrightarrow> obj_get c p \<noteq> None"
  by (auto simp: platformTypes_def split: option.splits)

lemma worldWith_active: "activeSegments (worldWith c ch) = [segmentWith c ch]"
  by (simp add: activeSegments_def worldWith_def segmentWith_def List.map_filter_simps)

lemma worldWith_calm: "calm n (worldWith c ch)"
  by (simp add: calm_def outcome_def worldWith_def)

lemma unnest_githubStar_otherFork: "unnestActivityTypes \<lparr>default_types = [], custom = githubStar_otherFork\<rparr>
   = [(''star'', withPlatform starType ''github''), (''fork'', withPlatform forkType ''other'')]"
  by code_simp

text \<open>
  Claim C9. When the key is present in the unnested view, \<open>destroyActivityType\<close>
  removes the entry at \<open>custom[platform][key]\<close>, \<open>platform\<close> being the one the view
  shows for the key; every other (platform, type key) entry and every other
  platform's object is left as it was, the new configuration is written back to the
  segment and returned.
\<close>

theorem destroyActivityType_present:
  assumes act: "activeSegments w = [seg]" and calm: "calm 1 w"
      and present: "obj_get (unnestActivityTypes (getActivityTypes w)) key = Some u"
  shows "\<exists>c'. fst (destroyActivityType key w) = Inr \<lparr>default_types = defaults w, custom = c'\<rparr>
           \<and> entry (customActivityTypes seg) (platform u) key \<noteq> None
           \<and> entry c' (platform u) key = None
           \<and> (\<forall>p k. (p, k) \<noteq> (platform u, key) \<longrightarrow> entry c' p k = entry (customActivityTypes seg) p k)
           \<and> (\<forall>p. p \<noteq> platform u \<longrightarrow> obj_get c' p = obj_get (customActivityTypes seg) p)
           \<and> obj_keys c' = obj_keys (customActivityTypes seg)
           \<and> map customActivityTypes (activeSegments (snd (destroyActivityType key w))) = [c']"
proof -
  let ?c = "customActivityTypes seg"
  have gat: "getActivityTypes w = \<lparr>default_types = defaults w, custom = ?c\<rparr>"
    using act by (rule getActivityTypes_single)
  from unnest_holder[OF present] obtain tm s where
    tm: "platformTypes ?c (platform u) = Some tm" and s: "obj_get tm key = Some s"
    by (auto simp: gat)
  from active_single[OF act] obtain i where
    i: "id_segment seg = Some i" and f: "find (\<lambda>r. id_segment r = Some i) (rows w) = Some seg"
    by blast
  define c' where "c' = obj_set ?c (platform u) (Some (obj_delete tm key))"
  define d where "d = \<lparr>name_u = None, slug_u = None, customActivityTypes_u = Some c',
                        activityChannels_u = None\<rparr>"
  define w' where "w' = w\<lparr>calls := calls w @ [Update None (Some i) d],
              rows := map (\<lambda>r. if id_segment r = Some i then applyUpdate d r else r) (rows w)\<rparr>"
  have upd: "repo_update None (Some i) d w = (Inr (applyUpdate d seg), w')"
    unfolding w'_def using calm f by (intro repo_update_ok[where n=0]) simp_all
  have rd: "obj_read (unnestActivityTypes \<lparr>default_types = defaults w, custom = ?c\<rparr>) key = Own u"
    using present by (simp add: gat obj_read_Own)
  have run: "destroyActivityType key w = (Inr \<lparr>default_types = defaults w, custom = c'\<rparr>, w')"
    using upd[unfolded d_def c'_def]
    by (simp add: destroyActivityType_def Let_def bind_def getStrict_single[OF act] gat i rd
          platformProperty_def platformTypes_read[OF tm]
          ret_def activityTypes_of_def applyUpdate_def w'_def c'_def d_def)
  have pk: "platform u \<in> set (obj_keys ?c)"
    using platformTypes_own[OF tm] by (simp add: obj_get_None_iff)
  have active': "activeSegments w' = [applyUpdate d seg]"
    using activeSegments_update[of w' i d w] act i by (simp add: w'_def)
  show ?thesis
    apply (rule exI[of _ c'])
    using tm s pk platformTypes_own[OF tm]
    by (auto simp: run active' applyUpdate_def d_def entry_def c'_def platformTypes_set obj_get_delete
          obj_get_set obj_keys_set_present
        split: option.splits)
qed

theorem destroyActivityType_present_witness:
  "activeSegments (worldWith githubStar_otherFork []) = [segmentWith githubStar_otherFork []]
   \<and> calm 1 (worldWith githubStar_otherFork [])
   \<and> obj_get (unnestActivityTypes (getActivityTypes (worldWith githubStar_otherFork []))) ''fork''
        = Some (withPlatform forkType ''other'')
   \<and> (\<exists>c'. fst (destroyActivityType ''fork'' (worldWith githubStar_otherFork []))
              = Inr \<lparr>default_types = [], custom = c'\<rparr>
          \<and> entry c' ''other'' ''fork'' = None
          \<and> entry c' ''github'' ''star'' = Some starType)"
proof -
  let ?w = "worldWith githubStar_otherFork []"
  have a: "activeSegments ?w = [segmentWith githubStar_otherFork []]" by (rule worldWith_active)
  have b: "calm 1 ?w" by (rule worldWith_calm)
  have g: "getActivityTypes ?w = \<lparr>default_types = [], custom = githubStar_otherFork\<rparr>"
    by (simp add: getActivityTypes_single[OF a] segmentWith_def) (simp add: worldWith_def)
  have c: "obj_get (unnestActivityTypes (getActivityTypes ?w)) ''fork''
             = Some (withPlatform forkType ''other'')"
    by (simp add: g unnest_githubStar_otherFork obj_get_def)
  have e: "entry githubStar_otherFork ''github'' ''star'' = Some starType"
    by (simp add: entry_def platformTypes_def githubStar_otherFork_def obj_get_def)
  from destroyActivityType_present[OF a b c]
  show ?thesis using a b c e
    by (auto simp: withPlatform_def segmentWith_def worldWith_def)
qed

section \<open>Creating and destroying activity types\<close>

lemma not_proto: "k \<notin> set protoKeys \<Longrightarrow> k \<noteq> ''__proto__''"
  using proto_in_protoKeys by auto

lemma createActivityType_run:
  assumes act: "activeSegments w = [seg]" and ty: "truthy (type d)"
      and pk: "platformKeyOf rt pf \<notin> set protoKeys" and tk: "typeKeyOf rt d \<notin> set protoKeys"
  shows "createActivityType rt d pf w =
           (if entry (customActivityTypes seg) (platformKeyOf rt pf) (typeKeyOf rt d) \<noteq> None
            then (Inr (getActivityTypes w), w)
            else bind (repo_update None (id_segment seg)
                         \<lparr>name_u = None, slug_u = None,
                          customActivityTypes_u =
                            Some (nestedInsert (customActivityTypes seg) (platformKeyOf rt pf)
                                    (typeKeyOf rt d)
                                    (newActivityType (case type d of None \<Rightarrow> [] | Some v \<Rightarrow> v))),
                          activityChannels_u = None\<rparr>)
                   (\<lambda>updated w'. ret (activityTypes_of w' updated) w') w)"
proof (cases "platformTypes (customActivityTypes seg) (platformKeyOf rt pf)")
  case None
  have r1: "obj_read (customActivityTypes seg) (platformKeyOf rt pf) = Missing
            \<or> obj_read (customActivityTypes seg) (platformKeyOf rt pf) = Own None"
    using None pk by (auto simp: platformTypes_def obj_read_def split: option.splits)
  have r2: "obj_read (obj_set (customActivityTypes seg) (platformKeyOf rt pf) (Some []))
              (platformKeyOf rt pf) = Own (Some [])"
    using not_proto[OF pk] by (simp add: obj_read_def obj_get_set)
  have r3: "obj_read ([] :: ActivityTypeSetting obj) (typeKeyOf rt d) = Missing"
    using tk by (simp add: obj_read_def obj_get_Nil)
  from r1 show ?thesis
    using ty None r2 r3
    by (auto simp: createActivityType_def Let_def bind_def getStrict_single[OF act]
          getActivityTypes_single[OF act] platformKeyOf_def[symmetric] typeKeyOf_def[symmetric]
          entry_def nestedInsert_absent_platform[OF None pk])
next
  case (Some tm)
  have r1: "obj_read (customActivityTypes seg) (platformKeyOf rt pf) = Own (Some tm)"
    by (rule platformTypes_read[OF Some])
  have r2: "obj_read tm (typeKeyOf rt d) =
              (case obj_get tm (typeKeyOf rt d) of None \<Rightarrow> Missing | Some s \<Rightarrow> Own s)"
    using tk by (simp add: obj_read_def)
  show ?thesis
    using ty Some r1
    by (auto simp: createActivityType_def Let_def bind_def getStrict_single[OF act]
          getActivityTypes_single[OF act] platformKeyOf_def[symmetric] typeKeyOf_def[symmetric]
          entry_def nestedInsert_present_platform[OF Some] ret_def r2 split: option.splits)
qed

lemma createActivityType_existing:
  assumes act: "activeSegments w = [seg]" and ty: "truthy (type d)"
      and pk: "platformKeyOf rt pf \<notin> set protoKeys" and tk: "typeKeyOf rt d \<notin> set protoKeys"
      and ex: "entry (customActivityTypes seg) (platformKeyOf rt pf) (typeKeyOf rt d) \<noteq> None"
  shows "createActivityType rt d pf w = (Inr (getActivityTypes w), w)"
  using ex by (simp add: createActivityType_run[OF act ty pk tk])

lemma destroyActivityType_absent:
  assumes act: "activeSegments w = [seg]"
      and ab: "obj_get (unnestActivityTypes (getActivityTypes w)) key = None"
      and k: "key \<notin> set protoKeys"
  shows "destroyActivityType key w = (Inr (getActivityTypes w), w)"
  using obj_read_Missing[OF ab k]
  by (simp add: destroyActivityType_def Let_def bind_def getStrict_single[OF act] ret_def)

lemma createActivityType_fresh:
  assumes act: "activeSegments w = [seg]" and ty: "truthy (type d)" and calm: "calm 1 w"
      and pk: "platformKeyOf rt pf \<notin> set protoKeys" and tk: "typeKeyOf rt d \<notin> set protoKeys"
      and nex: "entry (customActivityTypes seg) (platformKeyOf rt pf) (typeKeyOf rt d) = None"
  shows "\<exists>w1. createActivityType rt d pf w =
            (Inr \<lparr>default_types = defaults w,
                  custom = nestedInsert (customActivityTypes seg) (platformKeyOf rt pf) (typeKeyOf rt d)
                             (newActivityType (case type d of None \<Rightarrow> [] | Some v \<Rightarrow> v))\<rparr>, w1)
          \<and> activeSegments w1 =
               [seg\<lparr>customActivityTypes :=
                      nestedInsert (customActivityTypes seg) (platformKeyOf rt pf) (typeKeyOf rt d)
                        (newActivityType (case type d of None \<Rightarrow> [] | Some v \<Rightarrow> v))\<rparr>]
          \<and> defaults w1 = defaults w
          \<and> calls w1 = calls w @ [Update None (id_segment seg)
                \<lparr>name_u = None, slug_u = None,
                          customActivityTypes_u =
                            Some (nestedInsert (customActivityTypes seg) (platformKeyOf rt pf)
                                    (typeKeyOf rt d)
                                    (newActivityType (case type d of None \<Rightarrow> [] | Some v \<Rightarrow> v))),
                          activityChannels_u = None\<rparr>]"
proof -
  from active_single[OF act] obtain i where
    i: "id_segment seg = Some i" and f: "find (\<lambda>r. id_segment r = Some i) (rows w) = Some seg"
    by blast
  define c' where "c' = nestedInsert (customActivityTypes seg) (platformKeyOf rt pf) (typeKeyOf rt d)
                             (newActivityType (case type d of None \<Rightarrow> [] | Some v \<Rightarrow> v))"
  define u where "u = \<lparr>name_u = None, slug_u = None, customActivityTypes_u = Some c',
                        activityChannels_u = None\<rparr>"
  define w1 where "w1 = w\<lparr>calls := calls w @ [Update None (Some i) u],
              rows := map (\<lambda>r. if id_segment r = Some i then applyUpdate u r else r) (rows w)\<rparr>"
  have upd: "repo_update None (Some i) u w = (Inr (applyUpdate u seg), w1)"
    unfolding w1_def using calm f by (intro repo_update_ok[where n=0]) simp_all
  have run: "createActivityType rt d pf w = (Inr \<lparr>default_types = defaults w, custom = c'\<rparr>, w1)"
    using nex upd
    by (simp add: createActivityType_run[OF act ty pk tk] i bind_def c'_def[symmetric] u_def[symmetric]
          ret_def activityTypes_of_def)
       (simp add: applyUpdate_def u_def w1_def)
  have active': "activeSegments w1 = [applyUpdate u seg]"
    using activeSegments_update[of w1 i u w] act i by (simp add: w1_def)
  show ?thesis
    apply (rule exI[of _ w1])
    by (simp add: run active' c'_def[symmetric]) (simp add: applyUpdate_def u_def w1_def i)
qed

text \<open>
  For keys that are not names of properties every object inherits, the two
  operations are no-ops where they should be. With one addressable segment:
  \<open>createActivityType\<close> on a (type, platform) pair that already exists, and
  \<open>destroyActivityType\<close> on a key absent from the unnested view, return the current
  configuration and leave the world as it is (no call to the store, no error); and
  when a first \<open>createActivityType\<close> goes through, a second call with the same
  arguments returns the same configuration and changes nothing.
\<close>

lemma noops_on_plain_keys:
  assumes act: "activeSegments w = [seg]"
      and pk: "platformKeyOf rt pf \<notin> set protoKeys" and tk: "typeKeyOf rt d \<notin> set protoKeys"
      and k: "key \<notin> set protoKeys"
  shows "(truthy (type d)
            \<and> entry (customActivityTypes seg) (platformKeyOf rt pf) (typeKeyOf rt d) \<noteq> None
          \<longrightarrow> createActivityType rt d pf w = (Inr (getActivityTypes w), w))
       \<and> (obj_get (unnestActivityTypes (getActivityTypes w)) key = None
          \<longrightarrow> destroyActivityType key w = (Inr (getActivityTypes w), w))
       \<and> (truthy (type d) \<and> calm 1 w
          \<longrightarrow> (\<exists>a w1. createActivityType rt d pf w = (Inr a, w1)
                      \<and> createActivityType rt d pf w1 = (Inr a, w1)))"
proof (intro conjI impI)
  assume "truthy (type d) \<and> entry (customActivityTypes seg) (platformKeyOf rt pf) (typeKeyOf rt d) \<noteq> None"
  then show "createActivityType rt d pf w = (Inr (getActivityTypes w), w)"
    using createActivityType_existing[OF act _ pk tk] by blast
next
  assume "obj_get (unnestActivityTypes (getActivityTypes w)) key = None"
  then show "destroyActivityType key w = (Inr (getActivityTypes w), w)"
    using k by (rule destroyActivityType_absent[OF act])
next
  assume h: "truthy (type d) \<and> calm 1 w"
  then have ty: "truthy (type d)" and calm: "calm 1 w" by simp_all
  show "\<exists>a w1. createActivityType rt d pf w = (Inr a, w1) \<and> createActivityType rt d pf w1 = (Inr a, w1)"
  proof (cases "entry (customActivityTypes seg) (platformKeyOf rt pf) (typeKeyOf rt d)")
    case None
    from createActivityType_fresh[OF act ty calm pk tk None] obtain w1 where
      r: "createActivityType rt d pf w =
            (Inr \<lparr>default_types = defaults w,
                  custom = nestedInsert (customActivityTypes seg) (platformKeyOf rt pf) (typeKeyOf rt d)
                             (newActivityType (case type d of None \<Rightarrow> [] | Some v \<Rightarrow> v))\<rparr>, w1)"
      and a1: "activeSegments w1 =
               [seg\<lparr>customActivityTypes :=
                      nestedInsert (customActivityTypes seg) (platformKeyOf rt pf) (typeKeyOf rt d)
                        (newActivityType (case type d of None \<Rightarrow> [] | Some v \<Rightarrow> v))\<rparr>]"
      and d1: "defaults w1 = defaults w" by blast
    have "createActivityType rt d pf w1 = (Inr (getActivityTypes w1), w1)"
      by (rule createActivityType_existing[OF a1 ty pk tk])
         (simp add: entry_nestedInsert[OF pk not_proto[OF tk]])
    then show ?thesis using r by (simp add: getActivityTypes_single[OF a1] d1)
  next
    case (Some s)
    then have "createActivityType rt d pf w = (Inr (getActivityTypes w), w)"
      using createActivityType_existing[OF act ty pk tk] by simp
    then show ?thesis by simp
  qed
qed

text \<open>
  Claim C6 fails on the code for a key that names a property every object
  inherits. The configuration holds \<open>star\<close> and \<open>fork\<close>; \<open>constructor\<close> is absent
  from it and from its unnested view. \<open>destroyActivityType\<close> of \<open>constructor\<close> is not
  a no-op: the test of line 277 reads the inherited property, line 278 looks for the
  platform \<open>undefined\<close>, and the \<open>delete\<close> throws a \<open>TypeError\<close>.
\<close>

theorem destroyActivityType_constructor_throws:
  "obj_get (unnestActivityTypes (getActivityTypes (worldWith githubStar_otherFork []))) ''constructor''
     = None
   \<and> entry githubStar_otherFork ''github'' ''constructor'' = None
   \<and> entry githubStar_otherFork ''other'' ''constructor'' = None
   \<and> destroyActivityType ''constructor'' (worldWith githubStar_otherFork [])
       = (Inl (TypeError ''Cannot convert undefined or null to object''),
          worldWith githubStar_otherFork [])"
  by code_simp

section \<open>Activity channels\<close>

lemma getActivityChannels_single:
  "activeSegments w = [seg] \<Longrightarrow> getActivityChannels w = activityChannels seg"
  by (simp add: getActivityChannels_def)

text \<open>
  For a platform whose name is not that of a property every object inherits, with
  one addressable segment, a store that answers and a non-empty channel: when the
  platform already has a channel list the channel is appended unless it is already
  in it, so the old list is an initial part of the new one and a list without
  duplicates stays without duplicates; when the platform has no list a singleton
  list is created. The lists of the other platforms are not touched, and the map is
  written back and returned.
\<close>

lemma updateActivityChannels_appends:
  assumes act: "activeSegments w = [seg]" and calm: "calm 1 w"
      and ch: "data_channel d = Some ch" "ch \<noteq> []"
      and pk: "interpolate (data_platform d) \<notin> set protoKeys"
  shows "\<exists>m. fst (updateActivityChannels d w) = Inr m
           \<and> obj_get m (interpolate (data_platform d)) =
               Some (case obj_get (activityChannels seg) (interpolate (data_platform d)) of
                       None \<Rightarrow> [ch]
                     | Some l \<Rightarrow> if ch \<in> set l then l else l @ [ch])
           \<and> (\<forall>l. obj_get (activityChannels seg) (interpolate (data_platform d)) = Some l \<and> distinct l
                 \<longrightarrow> (\<exists>l'. obj_get m (interpolate (data_platform d)) = Some l' \<and> distinct l'
                           \<and> (\<exists>ys. l' = l @ ys)))
           \<and> (\<forall>q. q \<noteq> interpolate (data_platform d) \<longrightarrow> obj_get m q = obj_get (activityChannels seg) q)
           \<and> map activityChannels (activeSegments (snd (updateActivityChannels d w))) = [m]"
proof -
  let ?pk = "interpolate (data_platform d)"
  let ?m0 = "activityChannels seg"
  from active_single[OF act] obtain i where
    i: "id_segment seg = Some i" and f: "find (\<lambda>r. id_segment r = Some i) (rows w) = Some seg"
    by blast
  define m where "m = (case obj_get ?m0 ?pk of
                   Some channelList \<Rightarrow>
                     if ch \<in> set channelList then ?m0
                     else obj_set ?m0 ?pk (channelList @ [ch])
                 | None \<Rightarrow> obj_set ?m0 ?pk [ch])"
  define u where "u = \<lparr>name_u = None, slug_u = None, customActivityTypes_u = None,
                        activityChannels_u = Some m\<rparr>"
  define w1 where "w1 = w\<lparr>calls := calls w @ [Update None (Some i) u],
              rows := map (\<lambda>r. if id_segment r = Some i then applyUpdate u r else r) (rows w)\<rparr>"
  have upd: "repo_update None (Some i) u w = (Inr (applyUpdate u seg), w1)"
    unfolding w1_def using calm f by (intro repo_update_ok[where n=0]) simp_all
  have rd: "obj_read ?m0 ?pk = (case obj_get ?m0 ?pk of None \<Rightarrow> Missing | Some l \<Rightarrow> Own l)"
    using pk by (simp add: obj_read_def)
  have run: "updateActivityChannels d w = (Inr m, w1)"
  proof (cases "obj_get ?m0 ?pk")
    case None
    then show ?thesis
      using ch upd
      by (simp add: updateActivityChannels_def Let_def truthy_def bind_def getStrict_single[OF act]
          getActivityChannels_single[OF act] i m_def u_def ret_def applyUpdate_def rd)
  next
    case (Some l)
    then show ?thesis
      using ch upd
      by (cases "ch \<in> set l")
         (simp_all add: updateActivityChannels_def Let_def truthy_def bind_def
            getStrict_single[OF act] getActivityChannels_single[OF act] i m_def u_def ret_def
            applyUpdate_def rd)
  qed
  have active': "activeSegments w1 = [applyUpdate u seg]"
    using activeSegments_update[of w1 i u w] act i by (simp add: w1_def)
  show ?thesis
    apply (rule exI[of _ m])
    using not_proto[OF pk]
    by (auto simp: run active' applyUpdate_def u_def m_def obj_get_set split: option.splits)
qed

text \<open>
  Claim C8 fails on the code for a platform that names a property every object
  inherits. The channel map has a list for \<open>github\<close> and none for \<open>constructor\<close>;
  \<open>updateActivityChannels\<close> for the platform \<open>constructor\<close> creates no singleton
  list: the test of line 307 reads the inherited property, and line 309 throws a
  \<open>TypeError\<close>. Nothing is written.
\<close>

theorem updateActivityChannels_constructor_throws:
  "obj_get (getActivityChannels (worldWith [] generalChannel)) ''constructor'' = None
   \<and> updateActivityChannels \<lparr>data_platform = Some ''constructor'', data_channel = Some ''general''\<rparr>
       (worldWith [] generalChannel)
       = (Inl (TypeError ''channelList.includes is not a function''), worldWith [] generalChannel)"
  by code_simp

section \<open>Type keys across platforms\<close>




text \<open>
  A type key that names an inherited property is outside the amended claim: the
  test of line 182 reads the inherited property, and \<open>createActivityType\<close> returns
  the configuration as it is, without an entry for the key and without a call to
  the store.
\<close>

lemma createActivityType_inherited_type_key:
  "typeKeyOf asciiRuntime \<lparr>type = Some ''Constructor''\<rparr> = ''constructor''
   \<and> createActivityType asciiRuntime \<lparr>type = Some ''Constructor''\<rparr> (Some ''github'')
         (worldWith githubStar_otherFork [])
       = (Inr \<lparr>default_types = [], custom = githubStar_otherFork\<rparr>,
          worldWith githubStar_otherFork [])
   \<and> entry githubStar_otherFork ''github'' ''constructor'' = None"
  by code_simp


section \<open>The creation cascade of a project group\<close>

lemma calm_facts6:
  assumes "calm 6 w"
  shows "outcome (faults w) (length (calls w)) = None"
        "outcome (faults w) (Suc (length (calls w))) = None"
        "outcome (faults w) (Suc (Suc (length (calls w)))) = None"
        "outcome (faults w) (Suc (Suc (Suc (length (calls w))))) = None"
        "outcome (faults w) (Suc (Suc (Suc (Suc (length (calls w)))))) = None"
        "outcome (faults w) (Suc (Suc (Suc (Suc (Suc (length (calls w))))))) = None"
  using calm_nth[OF assms, of 0] calm_nth[OF assms, of 1] calm_nth[OF assms, of 2]
        calm_nth[OF assms, of 3] calm_nth[OF assms, of 4] calm_nth[OF assms, of 5]
  by (simp_all add: eval_nat_numeral)

lemma find_fresh:
  "idsFresh w \<Longrightarrow> find (\<lambda>r. id_segment r = Some (nextId w)) (rows w) = None"
  by (auto simp: idsFresh_def find_None_iff)

lemmas io_defs = bind_def ret_def throw_def tryCatch_def invoke_def createTransaction_def
  commitTransaction_def rollbackTransaction_def readTable_def writeTable_def freshId_def
  repo_create_def repo_findById_def repo_findBySlug_def repo_update_def
  repo_updateChildrenBulk_def findById_def isOpen_def

lemma createProjectGroup_run:
  assumes v: "\<not> truthy (parentSlug d)" "\<not> truthy (grandparentSlug d)"
      and calm: "calm 6 w" and fresh: "idsFresh w"
  shows "createProjectGroup tp d w =
     (Inr (Some (d\<lparr>id_segment := Some (nextId w)\<rparr>)),
      w\<lparr>calls := calls w @
           [CreateTransaction,
            Create (Some (length (transactions w))) d,
            Create (Some (length (transactions w)))
              (d\<lparr>parentSlug := Some (slug d), parentName := Some (name d)\<rparr>),
            Create (Some (length (transactions w)))
              (d\<lparr>parentSlug := Some (slug d), grandparentSlug := Some (slug d),
                 parentName := Some (name d), grandparentName := Some (name d)\<rparr>),
            CommitTransaction (length (transactions w)),
            FindById (Some (nextId w))],
        nextId := nextId w + 3,
        rows := rows w @
           [d\<lparr>id_segment := Some (nextId w)\<rparr>,
            d\<lparr>parentSlug := Some (slug d), parentName := Some (name d),
              id_segment := Some (nextId w + 1)\<rparr>,
            d\<lparr>parentSlug := Some (slug d), grandparentSlug := Some (slug d),
              parentName := Some (name d), grandparentName := Some (name d),
              id_segment := Some (nextId w + 2)\<rparr>],
        transactions := transactions w @
           [\<lparr>state = Committed,
             table = rows w @
               [d\<lparr>id_segment := Some (nextId w)\<rparr>,
                d\<lparr>parentSlug := Some (slug d), parentName := Some (name d),
                  id_segment := Some (nextId w + 1)\<rparr>,
                d\<lparr>parentSlug := Some (slug d), grandparentSlug := Some (slug d),
                  parentName := Some (name d), grandparentName := Some (name d),
                  id_segment := Some (nextId w + 2)\<rparr>]\<rparr>]\<rparr>)"
  using v calm_facts6[OF calm] find_fresh[OF fresh]
  by (simp add: createProjectGroup_def io_defs nth_append find_append')

text \<open>
  Claim C1. For an input without parent and grandparent slug (and with a slug of its
  own), in a world whose collaborators answer, \<open>createProjectGroup\<close> stores exactly
  three rows: the group, a project whose parent slug and name are the group's slug
  and name, and a subproject whose parent and grandparent slug and name are the
  group's; all other fields are the input's. It returns the group as read back by
  its id.
\<close>

theorem createProjectGroup_cascade:
  assumes v: "\<not> truthy (parentSlug d)" "\<not> truthy (grandparentSlug d)" and sl: "slug d \<noteq> []"
      and calm: "calm 6 w" and fresh: "idsFresh w"
  shows "fst (createProjectGroup tp d w) = Inr (Some (d\<lparr>id_segment := Some (nextId w)\<rparr>))
       \<and> rows (snd (createProjectGroup tp d w)) =
           rows w @
             [d\<lparr>id_segment := Some (nextId w)\<rparr>,
              d\<lparr>parentSlug := Some (slug d), parentName := Some (name d),
                id_segment := Some (nextId w + 1)\<rparr>,
              d\<lparr>parentSlug := Some (slug d), grandparentSlug := Some (slug d),
                parentName := Some (name d), grandparentName := Some (name d),
                id_segment := Some (nextId w + 2)\<rparr>]
       \<and> segmentLevel (d\<lparr>id_segment := Some (nextId w)\<rparr>) = PROJECT_GROUP
       \<and> segmentLevel (d\<lparr>parentSlug := Some (slug d), parentName := Some (name d),
                id_segment := Some (nextId w + 1)\<rparr>) = PROJECT
       \<and> segmentLevel (d\<lparr>parentSlug := Some (slug d), grandparentSlug := Some (slug d),
                parentName := Some (name d), grandparentName := Some (name d),
                id_segment := Some (nextId w + 2)\<rparr>) = SUBPROJECT
       \<and> find (\<lambda>r. id_segment r = Some (nextId w)) (rows (snd (createProjectGroup tp d w)))
           = Some (d\<lparr>id_segment := Some (nextId w)\<rparr>)
       \<and> calls (snd (createProjectGroup tp d w)) =
           calls w @
             [CreateTransaction,
              Create (Some (length (transactions w))) d,
              Create (Some (length (transactions w)))
                (d\<lparr>parentSlug := Some (slug d), parentName := Some (name d)\<rparr>),
              Create (Some (length (transactions w)))
                (d\<lparr>parentSlug := Some (slug d), grandparentSlug := Some (slug d),
                   parentName := Some (name d), grandparentName := Some (name d)\<rparr>),
              CommitTransaction (length (transactions w)),
              FindById (Some (nextId w))]"
  using v sl find_fresh[OF fresh]
  by (simp add: createProjectGroup_run[OF v calm fresh] segmentLevel_def isSubproject_def truthy_def
        find_append')

theorem createProjectGroup_cascade_witness:
  "\<not> truthy (parentSlug acme) \<and> \<not> truthy (grandparentSlug acme) \<and> slug acme \<noteq> []
   \<and> calm 6 emptyWorld \<and> idsFresh emptyWorld
   \<and> fst (createProjectGroup Some acme emptyWorld) = Inr (Some (acme\<lparr>id_segment := Some 0\<rparr>))
   \<and> rows (snd (createProjectGroup Some acme emptyWorld)) = acmeRows
   \<and> map segmentLevel acmeRows = [PROJECT_GROUP, PROJECT, SUBPROJECT]"
proof -
  have v: "\<not> truthy (parentSlug acme)" "\<not> truthy (grandparentSlug acme)" "slug acme \<noteq> []"
    by (simp_all add: acme_def truthy_def)
  have c: "calm 6 emptyWorld" by (simp add: calm_def outcome_def emptyWorld_def)
  have f: "idsFresh emptyWorld" by (simp add: idsFresh_def emptyWorld_def)
  have n: "nextId emptyWorld = 0" "rows emptyWorld = []" by (simp_all add: emptyWorld_def)
  have s: "slug acme = ''acme''" "name acme = ''Acme''" by (simp_all add: acme_def)
  from createProjectGroup_cascade[OF v c f, of Some]
  show ?thesis using v c f by (simp add: n s acmeRows_def eval_nat_numeral)
qed

section \<open>Renaming and the children\<close>

lemma update_run_bulk:
  assumes seg: "find (\<lambda>r. id_segment r = Some i) (rows w) = Some s"
      and par: "\<not> isSubproject s" "truthy (name_u d) \<or> truthy (slug_u d)"
      and calm: "calm 6 w"
  shows "update tp bulk i d w =
     (Inr (find (\<lambda>r. id_segment r = Some i)
             (bulk (Some i) (name_u d) (slug_u d)
                (map (\<lambda>r. if id_segment r = Some i then applyUpdate d r else r) (rows w)))),
      w\<lparr>calls := calls w @
           [FindById (Some i), CreateTransaction,
            Update (Some (length (transactions w))) (Some i) d,
            UpdateChildrenBulk (Some (length (transactions w))) (Some i) (name_u d) (slug_u d),
            CommitTransaction (length (transactions w)),
            FindById (Some i)],
        rows := bulk (Some i) (name_u d) (slug_u d)
                  (map (\<lambda>r. if id_segment r = Some i then applyUpdate d r else r) (rows w)),
        transactions := transactions w @
           [\<lparr>state = Committed,
             table = bulk (Some i) (name_u d) (slug_u d)
                  (map (\<lambda>r. if id_segment r = Some i then applyUpdate d r else r) (rows w))\<rparr>]\<rparr>)"
  using seg par calm_facts6[OF calm] find_Some_P[OF seg]
  by (simp add: update_def io_defs nth_append)

lemma calm_mono: "calm n w \<Longrightarrow> m \<le> n \<Longrightarrow> calm m w"
  by (simp add: calm_def)

lemma update_run_plain:
  assumes seg: "find (\<lambda>r. id_segment r = Some i) (rows w) = Some s"
      and par: "isSubproject s \<or> \<not> (truthy (name_u d) \<or> truthy (slug_u d))"
      and calm: "calm 5 w"
  shows "update tp bulk i d w =
     (Inr (find (\<lambda>r. id_segment r = Some i)
             (map (\<lambda>r. if id_segment r = Some i then applyUpdate d r else r) (rows w))),
      w\<lparr>calls := calls w @
           [FindById (Some i), CreateTransaction,
            Update (Some (length (transactions w))) (Some i) d,
            CommitTransaction (length (transactions w)),
            FindById (Some i)],
        rows := map (\<lambda>r. if id_segment r = Some i then applyUpdate d r else r) (rows w),
        transactions := transactions w @
           [\<lparr>state = Committed,
             table = map (\<lambda>r. if id_segment r = Some i then applyUpdate d r else r) (rows w)\<rparr>]\<rparr>)"
  using seg par calm_nth[OF calm, of 0] calm_nth[OF calm, of 1] calm_nth[OF calm, of 2]
        calm_nth[OF calm, of 3] calm_nth[OF calm, of 4] find_Some_P[OF seg]
  by (auto simp add: update_def io_defs nth_append eval_nat_numeral)

lemma level_subproject: "segmentLevel s = SUBPROJECT \<longleftrightarrow> isSubproject s"
  by (simp add: segmentLevel_def)

text \<open>
  Claim C4, as amended. When the segment found under the id is a project group or a
  project and the update carries a non-empty name or a non-empty slug, \<open>update\<close>
  issues, between the row's own update and the commit, one bulk update of the
  children keyed by the segment's id and carrying the new name and slug, and the
  committed table is what that statement made of it. When the segment is a
  subproject no such statement is issued and only its own row changes.
\<close>

theorem update_propagates:
  assumes seg: "find (\<lambda>r. id_segment r = Some i) (rows w) = Some s" and calm: "calm 6 w"
  shows "(segmentLevel s \<noteq> SUBPROJECT \<and> (truthy (name_u d) \<or> truthy (slug_u d)) \<longrightarrow>
            calls (snd (update tp bulk i d w)) =
              calls w @
                [FindById (Some i), CreateTransaction,
                 Update (Some (length (transactions w))) (Some i) d,
                 UpdateChildrenBulk (Some (length (transactions w))) (id_segment s)
                   (name_u d) (slug_u d),
                 CommitTransaction (length (transactions w)),
                 FindById (Some i)]
          \<and> rows (snd (update tp bulk i d w)) =
              bulk (id_segment s) (name_u d) (slug_u d)
                (map (\<lambda>r. if id_segment r = Some i then applyUpdate d r else r) (rows w))
          \<and> fst (update tp bulk i d w) =
              Inr (find (\<lambda>r. id_segment r = Some i) (rows (snd (update tp bulk i d w)))))
       \<and> (segmentLevel s = SUBPROJECT \<longrightarrow>
            calls (snd (update tp bulk i d w)) =
              calls w @
                [FindById (Some i), CreateTransaction,
                 Update (Some (length (transactions w))) (Some i) d,
                 CommitTransaction (length (transactions w)),
                 FindById (Some i)]
          \<and> rows (snd (update tp bulk i d w)) =
              map (\<lambda>r. if id_segment r = Some i then applyUpdate d r else r) (rows w)
          \<and> fst (update tp bulk i d w) =
              Inr (find (\<lambda>r. id_segment r = Some i) (rows (snd (update tp bulk i d w)))))"
proof (intro conjI impI)
  assume h: "segmentLevel s \<noteq> SUBPROJECT \<and> (truthy (name_u d) \<or> truthy (slug_u d))"
  then have p: "\<not> isSubproject s" "truthy (name_u d) \<or> truthy (slug_u d)"
    by (simp_all add: level_subproject)
  note r = update_run_bulk[OF seg p calm, of tp bulk]
  have i: "id_segment s = Some i" using find_Some_P[OF seg] .
  show "calls (snd (update tp bulk i d w)) =
              calls w @
                [FindById (Some i), CreateTransaction,
                 Update (Some (length (transactions w))) (Some i) d,
                 UpdateChildrenBulk (Some (length (transactions w))) (id_segment s)
                   (name_u d) (slug_u d),
                 CommitTransaction (length (transactions w)),
                 FindById (Some i)]"
    by (simp add: r i)
  show "rows (snd (update tp bulk i d w)) =
              bulk (id_segment s) (name_u d) (slug_u d)
                (map (\<lambda>r. if id_segment r = Some i then applyUpdate d r else r) (rows w))"
    by (simp add: r i)
  show "fst (update tp bulk i d w) =
              Inr (find (\<lambda>r. id_segment r = Some i) (rows (snd (update tp bulk i d w))))"
    by (simp add: r i)
next
  assume h: "segmentLevel s = SUBPROJECT"
  then have p: "isSubproject s \<or> \<not> (truthy (name_u d) \<or> truthy (slug_u d))"
    by (simp add: level_subproject)
  note r = update_run_plain[OF seg p calm_mono[OF calm], of tp bulk]
  show "calls (snd (update tp bulk i d w)) =
              calls w @
                [FindById (Some i), CreateTransaction,
                 Update (Some (length (transactions w))) (Some i) d,
                 CommitTransaction (length (transactions w)),
                 FindById (Some i)]"
    by (simp add: r)
  show "rows (snd (update tp bulk i d w)) =
              map (\<lambda>r. if id_segment r = Some i then applyUpdate d r else r) (rows w)"
    by (simp add: r)
  show "fst (update tp bulk i d w) =
              Inr (find (\<lambda>r. id_segment r = Some i) (rows (snd (update tp bulk i d w))))"
    by (simp add: r)
qed

theorem update_propagates_witness:
  "find (\<lambda>r. id_segment r = Some 0) (rows treeWorld) = Some treeGroup
   \<and> find (\<lambda>r. id_segment r = Some 2) (rows treeWorld) = Some treeSubproject
   \<and> calm 6 treeWorld
   \<and> segmentLevel treeGroup = PROJECT_GROUP \<and> truthy (name_u (renameTo ''Acme Corp''))
   \<and> segmentLevel treeSubproject = SUBPROJECT
   \<and> rows (snd (update Some bulkBySlug 0 (renameTo ''Acme Corp'') treeWorld)) =
         [treeGroup\<lparr>name := ''Acme Corp''\<rparr>, treeProject\<lparr>parentName := Some ''Acme Corp''\<rparr>,
          treeSubproject]
   \<and> calls (snd (update Some bulkBySlug 0 (renameTo ''Acme Corp'') treeWorld)) =
         [FindById (Some 0), CreateTransaction, Update (Some 0) (Some 0) (renameTo ''Acme Corp''),
          UpdateChildrenBulk (Some 0) (Some 0) (Some ''Acme Corp'') None,
          CommitTransaction 0, FindById (Some 0)]
   \<and> rows (snd (update Some bulkBySlug 2 (renameTo ''Core'') treeWorld)) =
         [treeGroup, treeProject, treeSubproject\<lparr>name := ''Core''\<rparr>]
   \<and> calls (snd (update Some bulkBySlug 2 (renameTo ''Core'') treeWorld)) =
         [FindById (Some 2), CreateTransaction, Update (Some 0) (Some 2) (renameTo ''Core''),
          CommitTransaction 0, FindById (Some 2)]"
proof -
  have f0: "find (\<lambda>r. id_segment r = Some 0) (rows treeWorld) = Some treeGroup"
    by (simp add: treeWorld_def treeGroup_def emptyWorld_def)
  have f2: "find (\<lambda>r. id_segment r = Some 2) (rows treeWorld) = Some treeSubproject"
    by (simp add: treeWorld_def treeGroup_def treeProject_def treeSubproject_def emptyWorld_def)
  have c: "calm 6 treeWorld" by (simp add: calm_def outcome_def treeWorld_def emptyWorld_def)
  have l: "segmentLevel treeGroup = PROJECT_GROUP" "segmentLevel treeSubproject = SUBPROJECT"
          "truthy (name_u (renameTo ''Acme Corp''))"
    by (simp_all add: segmentLevel_def isSubproject_def truthy_def treeGroup_def acme_def
          treeSubproject_def renameTo_def)
  have w: "calls treeWorld = []" "transactions treeWorld = []"
          "rows treeWorld = [treeGroup, treeProject, treeSubproject]"
    by (simp_all add: treeWorld_def emptyWorld_def)
  have b: "bulkBySlug (id_segment treeGroup) (name_u (renameTo ''Acme Corp''))
             (slug_u (renameTo ''Acme Corp''))
             (map (\<lambda>r. if id_segment r = Some 0 then applyUpdate (renameTo ''Acme Corp'') r else r)
                [treeGroup, treeProject, treeSubproject])
           = [treeGroup\<lparr>name := ''Acme Corp''\<rparr>, treeProject\<lparr>parentName := Some ''Acme Corp''\<rparr>,
              treeSubproject]"
    by (simp add: bulkBySlug_def applyUpdate_def renameTo_def treeGroup_def treeProject_def
          treeSubproject_def acme_def webProject_def)
  have m: "map (\<lambda>r. if id_segment r = Some 2 then applyUpdate (renameTo ''Core'') r else r)
                [treeGroup, treeProject, treeSubproject]
           = [treeGroup, treeProject, treeSubproject\<lparr>name := ''Core''\<rparr>]"
    by (simp add: applyUpdate_def renameTo_def treeGroup_def treeProject_def
          treeSubproject_def acme_def webProject_def)
  have i: "id_segment treeGroup = Some 0" by (simp add: treeGroup_def)
  have n: "name_u (renameTo ''Acme Corp'') = Some ''Acme Corp''" "slug_u (renameTo ''Acme Corp'') = None"
    by (simp_all add: renameTo_def)
  from update_propagates[OF f0 c, of "renameTo ''Acme Corp''" Some bulkBySlug]
       update_propagates[OF f2 c, of "renameTo ''Core''" Some bulkBySlug]
  show ?thesis using f0 f2 c l b m
    by (simp add: w i n)
qed

text \<open>
  The claim as stated fails when the name changes to the empty string: the group's
  row takes the new name, no bulk update of the children is issued, and the project
  under the group keeps the old name as its parent's.
\<close>

theorem update_empty_name_not_propagated:
  "segmentLevel treeGroup = PROJECT_GROUP \<and> name treeGroup = ''Acme''
   \<and> name_u (renameTo []) = Some []
   \<and> fst (update Some bulkBySlug 0 (renameTo []) treeWorld) = Inr (Some (treeGroup\<lparr>name := []\<rparr>))
   \<and> rows (snd (update Some bulkBySlug 0 (renameTo []) treeWorld)) =
         [treeGroup\<lparr>name := []\<rparr>, treeProject, treeSubproject]
   \<and> calls (snd (update Some bulkBySlug 0 (renameTo []) treeWorld)) =
         [FindById (Some 0), CreateTransaction, Update (Some 0) (Some 0) (renameTo []),
          CommitTransaction 0, FindById (Some 0)]
   \<and> parentSlug treeProject = Some (slug treeGroup) \<and> parentName treeProject = Some ''Acme''"
  by code_simp

section \<open>Creating a project\<close>

lemma createProject_no_parent:
  assumes v: "\<not> truthy (grandparentSlug d)" "truthy (parentSlug d)"
      and calm: "calm 2 w"
      and none: "find (\<lambda>r. Some (slug r) = parentSlug d \<and> segmentLevel r = PROJECT_GROUP) (rows w) = None"
  shows "createProject tp d w =
     (Inl (Error (''Project group '' @ interpolate (parentName d) @ '' does not exist.'')),
      w\<lparr>calls := calls w @
           [CreateTransaction,
            FindBySlug (Some (length (transactions w))) (parentSlug d) PROJECT_GROUP],
        transactions := transactions w @ [\<lparr>state = Open, table = rows w\<rparr>]\<rparr>)"
  using v none calm_nth[OF calm, of 0] calm_nth[OF calm, of 1]
  by (simp add: createProject_def io_defs nth_append)

lemma createProject_lookup_throws:
  assumes v: "\<not> truthy (grandparentSlug d)" "truthy (parentSlug d)"
      and o: "outcome (faults w) (length (calls w)) = None"
             "outcome (faults w) (Suc (length (calls w))) = Some e"
  shows "createProject tp d w =
     (Inl e,
      w\<lparr>calls := calls w @
           [CreateTransaction,
            FindBySlug (Some (length (transactions w))) (parentSlug d) PROJECT_GROUP],
        transactions := transactions w @ [\<lparr>state = Open, table = rows w\<rparr>]\<rparr>)"
  using v o
  by (simp add: createProject_def io_defs nth_append)

lemma createProject_begin_throws:
  assumes v: "\<not> truthy (grandparentSlug d)" "truthy (parentSlug d)"
      and o: "outcome (faults w) (length (calls w)) = Some e"
  shows "createProject tp d w = (Inl e, w\<lparr>calls := calls w @ [CreateTransaction]\<rparr>)"
  using v o
  by (simp add: createProject_def io_defs nth_append)

lemma createProject_rollback_iff:
  assumes v: "\<not> truthy (grandparentSlug d)" "truthy (parentSlug d)"
  shows "list_ex isRollback (newCalls w (snd (createProject tp d w))) \<longleftrightarrow>
           outcome (faults w) (length (calls w)) = None
         \<and> outcome (faults w) (length (calls w) + 1) = None
         \<and> find (\<lambda>r. Some (slug r) = parentSlug d \<and> segmentLevel r = PROJECT_GROUP) (rows w) \<noteq> None
         \<and> (outcome (faults w) (length (calls w) + 2) \<noteq> None
            \<or> outcome (faults w) (length (calls w) + 3) \<noteq> None
            \<or> outcome (faults w) (length (calls w) + 4) \<noteq> None
            \<or> outcome (faults w) (length (calls w) + 5) \<noteq> None)"
  using v
  by (auto simp add: createProject_def io_defs nth_append newCalls_def isRollback_def
        eval_nat_numeral split: option.splits)


lemma createProject_first_calls:
  assumes v: "\<not> truthy (grandparentSlug d)" "truthy (parentSlug d)"
  shows "\<exists>rest. calls (snd (createProject tp d w)) = calls w @ CreateTransaction # rest
           \<and> (outcome (faults w) (length (calls w)) = None \<longrightarrow>
                (\<exists>rest'. rest = FindBySlug (Some (length (transactions w))) (parentSlug d)
                                  PROJECT_GROUP # rest'))"
  using v
  by (auto simp add: createProject_def io_defs nth_append split: option.splits)

lemma find_None_no_row: "find P xs = None \<longleftrightarrow> \<not> (\<exists>x\<in>set xs. P x)"
  by (auto simp: find_None_iff)

text \<open>
  What \<open>createProject\<close> does for an input that passes the two shape checks and
  whose parent slug is the slug of no stored project group, in a world whose first
  two collaborator calls answer: it opens the transaction, looks the parent up by
  slug at level \<open>PROJECT_GROUP\<close> and makes no further call; it throws an error whose
  text is built around the input's \<open>parentName\<close>; no row is stored, neither in the
  committed table nor in the transaction's copy.
\<close>

lemma createProject_missing_group:
  assumes v: "\<not> truthy (grandparentSlug d)" "truthy (parentSlug d)"
      and calm: "calm 2 w"
      and none: "\<not> (\<exists>r\<in>set (rows w). Some (slug r) = parentSlug d \<and> segmentLevel r = PROJECT_GROUP)"
  shows "fst (createProject tp d w) =
           Inl (Error (''Project group '' @ interpolate (parentName d) @ '' does not exist.''))
       \<and> newCalls w (snd (createProject tp d w)) =
           [CreateTransaction,
            FindBySlug (Some (length (transactions w))) (parentSlug d) PROJECT_GROUP]
       \<and> rows (snd (createProject tp d w)) = rows w
       \<and> transactions (snd (createProject tp d w)) =
           transactions w @ [\<lparr>state = Open, table = rows w\<rparr>]"
proof -
  have n: "find (\<lambda>r. Some (slug r) = parentSlug d \<and> segmentLevel r = PROJECT_GROUP) (rows w) = None"
    using none by (simp add: find_None_no_row)
  show ?thesis
    by (simp add: createProject_no_parent[OF v calm n] newCalls_def)
qed

lemma createProject_missing_group_named:
  "\<not> truthy (grandparentSlug webProject) \<and> truthy (parentSlug webProject) \<and> calm 2 emptyWorld
   \<and> rows emptyWorld = []
   \<and> fst (createProject Some webProject emptyWorld) =
        Inl (Error ''Project group Acme does not exist.'')
   \<and> newCalls emptyWorld (snd (createProject Some webProject emptyWorld)) =
        [CreateTransaction, FindBySlug (Some 0) (Some ''acme'') PROJECT_GROUP]
   \<and> rows (snd (createProject Some webProject emptyWorld)) = []"
proof -
  have v: "\<not> truthy (grandparentSlug webProject)" "truthy (parentSlug webProject)"
    by (simp_all add: webProject_def truthy_def)
  have c: "calm 2 emptyWorld" by (simp add: calm_def outcome_def emptyWorld_def)
  have r: "rows emptyWorld = []" "transactions emptyWorld = []" by (simp_all add: emptyWorld_def)
  have n: "\<not> (\<exists>r\<in>set (rows emptyWorld).
              Some (slug r) = parentSlug webProject \<and> segmentLevel r = PROJECT_GROUP)"
    by (simp add: r)
  have p: "parentSlug webProject = Some ''acme''" "interpolate (parentName webProject) = ''Acme''"
    by (simp_all add: webProject_def interpolate_def)
  from createProject_missing_group[OF v c n, of Some]
  show ?thesis using v c by (simp add: r p)
qed

text \<open>
  Claim C5 fails on the code for an input that names its parent by slug only. The
  project input has the parent slug \<open>ghost\<close>, which no stored group has, and no
  \<open>parentName\<close>. The lookup is made before any write and nothing is stored, as the
  claim says, but the error does not name the missing group: the message is built
  from \<open>data.parentName\<close>, which the input does not carry, and reads
  \<open>Project group undefined does not exist.\<close>
\<close>

theorem createProject_missing_group_undefined:
  "parentSlug ghostProject = Some ''ghost'' \<and> parentName ghostProject = None
   \<and> fst (createProject Some ghostProject emptyWorld) =
        Inl (Error ''Project group undefined does not exist.'')
   \<and> newCalls emptyWorld (snd (createProject Some ghostProject emptyWorld)) =
        [CreateTransaction, FindBySlug (Some 0) (Some ''ghost'') PROJECT_GROUP]
   \<and> rows (snd (createProject Some ghostProject emptyWorld)) = []"
  by code_simp

text \<open>
  Claim C10, as amended. In \<open>createProject\<close> the transaction is created first and
  the parent lookup, when the creation went through, is the next call. When the
  lookup finds no group the error is thrown with the transaction still open:
  neither commit nor rollback is called. A rollback is called exactly when the
  lookup found a group and one of the four calls inside the try block throws: the
  two creates, the commit or the final read by id.
\<close>

theorem createProject_transaction_scope:
  assumes v: "\<not> truthy (grandparentSlug d)" "truthy (parentSlug d)"
  shows "(\<exists>rest. calls (snd (createProject tp d w)) = calls w @ CreateTransaction # rest
           \<and> (outcome (faults w) (length (calls w)) = None \<longrightarrow>
                (\<exists>rest'. rest = FindBySlug (Some (length (transactions w))) (parentSlug d)
                                  PROJECT_GROUP # rest')))
       \<and> (calm 2 w
            \<and> find (\<lambda>r. Some (slug r) = parentSlug d \<and> segmentLevel r = PROJECT_GROUP) (rows w) = None
          \<longrightarrow> fst (createProject tp d w) =
                Inl (Error (''Project group '' @ interpolate (parentName d) @ '' does not exist.''))
            \<and> newCalls w (snd (createProject tp d w)) =
                [CreateTransaction,
                 FindBySlug (Some (length (transactions w))) (parentSlug d) PROJECT_GROUP]
            \<and> transactions (snd (createProject tp d w)) =
                transactions w @ [\<lparr>state = Open, table = rows w\<rparr>])
       \<and> (list_ex isRollback (newCalls w (snd (createProject tp d w))) \<longleftrightarrow>
             outcome (faults w) (length (calls w)) = None
           \<and> outcome (faults w) (length (calls w) + 1) = None
           \<and> find (\<lambda>r. Some (slug r) = parentSlug d \<and> segmentLevel r = PROJECT_GROUP) (rows w)
               \<noteq> None
           \<and> (outcome (faults w) (length (calls w) + 2) \<noteq> None
              \<or> outcome (faults w) (length (calls w) + 3) \<noteq> None
              \<or> outcome (faults w) (length (calls w) + 4) \<noteq> None
              \<or> outcome (faults w) (length (calls w) + 5) \<noteq> None))"
proof (intro conjI impI)
  show "\<exists>rest. calls (snd (createProject tp d w)) = calls w @ CreateTransaction # rest
           \<and> (outcome (faults w) (length (calls w)) = None \<longrightarrow>
                (\<exists>rest'. rest = FindBySlug (Some (length (transactions w))) (parentSlug d)
                                  PROJECT_GROUP # rest'))"
    by (rule createProject_first_calls[OF v])
next
  assume h: "calm 2 w
            \<and> find (\<lambda>r. Some (slug r) = parentSlug d \<and> segmentLevel r = PROJECT_GROUP) (rows w) = None"
  then have c: "calm 2 w"
    and n: "find (\<lambda>r. Some (slug r) = parentSlug d \<and> segmentLevel r = PROJECT_GROUP) (rows w) = None"
    by simp_all
  note r = createProject_no_parent[OF v c n, of tp]
  show "fst (createProject tp d w) =
                Inl (Error (''Project group '' @ interpolate (parentName d) @ '' does not exist.''))"
    by (simp add: r)
  show "newCalls w (snd (createProject tp d w)) =
                [CreateTransaction,
                 FindBySlug (Some (length (transactions w))) (parentSlug d) PROJECT_GROUP]"
    by (simp add: r newCalls_def)
  show "transactions (snd (createProject tp d w)) =
                transactions w @ [\<lparr>state = Open, table = rows w\<rparr>]"
    by (simp add: r)
next
  show "list_ex isRollback (newCalls w (snd (createProject tp d w))) \<longleftrightarrow>
             outcome (faults w) (length (calls w)) = None
           \<and> outcome (faults w) (length (calls w) + 1) = None
           \<and> find (\<lambda>r. Some (slug r) = parentSlug d \<and> segmentLevel r = PROJECT_GROUP) (rows w)
               \<noteq> None
           \<and> (outcome (faults w) (length (calls w) + 2) \<noteq> None
              \<or> outcome (faults w) (length (calls w) + 3) \<noteq> None
              \<or> outcome (faults w) (length (calls w) + 4) \<noteq> None
              \<or> outcome (faults w) (length (calls w) + 5) \<noteq> None)"
    by (rule createProject_rollback_iff[OF v])
qed

theorem createProject_transaction_scope_witness:
  "\<not> truthy (grandparentSlug ghostProject) \<and> truthy (parentSlug ghostProject)
   \<and> calm 2 acmeWorld
   \<and> find (\<lambda>r. Some (slug r) = parentSlug ghostProject \<and> segmentLevel r = PROJECT_GROUP)
        (rows acmeWorld) = None
   \<and> fst (createProject Some ghostProject acmeWorld) =
        Inl (Error ''Project group undefined does not exist.'')
   \<and> newCalls acmeWorld (snd (createProject Some ghostProject acmeWorld)) =
        [CreateTransaction, FindBySlug (Some 0) (Some ''ghost'') PROJECT_GROUP]
   \<and> transactions (snd (createProject Some ghostProject acmeWorld)) =
        [\<lparr>state = Open, table = acmeRows\<rparr>]
   \<and> \<not> list_ex isRollback (newCalls acmeWorld (snd (createProject Some ghostProject acmeWorld)))"
proof -
  have v: "\<not> truthy (grandparentSlug ghostProject)" "truthy (parentSlug ghostProject)"
    by (simp_all add: ghostProject_def truthy_def)
  have c: "calm 2 acmeWorld" by (simp add: calm_def outcome_def acmeWorld_def emptyWorld_def)
  have r: "rows acmeWorld = acmeRows" "transactions acmeWorld = []" "calls acmeWorld = []"
          "faults acmeWorld = []"
    by (simp_all add: acmeWorld_def emptyWorld_def)
  have n: "find (\<lambda>r. Some (slug r) = parentSlug ghostProject \<and> segmentLevel r = PROJECT_GROUP)
        (rows acmeWorld) = None"
    by (simp add: r acmeRows_def ghostProject_def acme_def)
  have p: "parentSlug ghostProject = Some ''ghost''"
          "interpolate (parentName ghostProject) = ''undefined''"
    by (simp_all add: ghostProject_def interpolate_def)
  from createProject_transaction_scope[OF v, of Some acmeWorld]
  show ?thesis using v c n by (simp add: r p outcome_def isRollback_def)
qed

text \<open>
  The claim as stated, that only a failing create triggers a rollback, fails when
  both creates go through and the commit throws.
\<close>

theorem createProject_commit_failure_rolls_back:
  "newCalls (acmeWorld\<lparr>faults := fifthCallFails\<rparr>)
     (snd (createProject Some webProject (acmeWorld\<lparr>faults := fifthCallFails\<rparr>))) =
     [CreateTransaction,
      FindBySlug (Some 0) (Some ''acme'') PROJECT_GROUP,
      Create (Some 0) webProject,
      Create (Some 0)
        (webProject\<lparr>parentSlug := Some ''web'', grandparentSlug := Some ''acme'',
                    parentName := Some ''Web''\<rparr>),
      CommitTransaction 0,
      RollbackTransaction (Some 0)]
   \<and> outcome fifthCallFails 2 = None \<and> outcome fifthCallFails 3 = None
   \<and> outcome fifthCallFails 4 = Some (Error ''deadlock'')
   \<and> fst (createProject Some webProject (acmeWorld\<lparr>faults := fifthCallFails\<rparr>))
        = Inl (Error ''deadlock'')"
  by code_simp

section \<open>Failures inside the transaction\<close>

text \<open>
  In \<open>createProjectGroup\<close> every call on the transaction sits inside the try block:
  when one of the three creates throws and the handle's \<open>transaction\<close> property
  designates the transaction, the transaction is rolled back, the error is thrown
  on and the committed rows are as before.
\<close>

lemma createProjectGroup_create_fails:
  assumes v: "\<not> truthy (parentSlug d)" "\<not> truthy (grandparentSlug d)"
      and tp: "tp (length (transactions w)) = Some (length (transactions w))"
      and k: "k \<in> {1, 2, 3}"
      and ok: "\<forall>j<k. outcome (faults w) (length (calls w) + j) = None"
      and bad: "outcome (faults w) (length (calls w) + k) = Some e"
      and rb: "outcome (faults w) (length (calls w) + k + 1) = None"
  shows "fst (createProjectGroup tp d w) = Inl e
       \<and> rows (snd (createProjectGroup tp d w)) = rows w
       \<and> map state (transactions (snd (createProjectGroup tp d w))) =
           map state (transactions w) @ [RolledBack]
       \<and> last (calls (snd (createProjectGroup tp d w))) =
           RollbackTransaction (Some (length (transactions w)))"
proof -
  from k consider "k = 1" | "k = 2" | "k = 3" by auto
  then show ?thesis
  proof cases
    case 1
    then show ?thesis
      using v tp ok[rule_format, of 0] bad rb
      by (simp add: createProjectGroup_def io_defs nth_append eval_nat_numeral)
  next
    case 2
    then show ?thesis
      using v tp ok[rule_format, of 0] ok[rule_format, of 1] bad rb
      by (simp add: createProjectGroup_def io_defs nth_append eval_nat_numeral)
  next
    case 3
    then show ?thesis
      using v tp ok[rule_format, of 0] ok[rule_format, of 1] ok[rule_format, of 2] bad rb
      by (simp add: createProjectGroup_def io_defs nth_append eval_nat_numeral)
  qed
qed

text \<open>
  Claim C2 at its failing input. In \<open>createProject\<close> the parent lookup runs on the
  open transaction but before the try block: when it throws, the error is thrown on
  with the transaction left open and no rollback called. The same fault in
  \<open>createProjectGroup\<close>, where it hits the first create, ends in a rollback.
\<close>

theorem createProject_lookup_failure_no_rollback:
  "createProject Some webProject (acmeWorld\<lparr>faults := secondCallFails\<rparr>) =
     (Inl (Error ''connection lost''),
      acmeWorld\<lparr>faults := secondCallFails,
                calls := [CreateTransaction, FindBySlug (Some 0) (Some ''acme'') PROJECT_GROUP],
                transactions := [\<lparr>state = Open, table = acmeRows\<rparr>]\<rparr>)
   \<and> createProjectGroup Some acme (emptyWorld\<lparr>faults := secondCallFails\<rparr>) =
     (Inl (Error ''connection lost''),
      emptyWorld\<lparr>faults := secondCallFails,
                 calls := [CreateTransaction, Create (Some 0) acme, RollbackTransaction (Some 0)],
                 transactions := [\<lparr>state = RolledBack, table = []\<rparr>]\<rparr>)"
  by code_simp

end
